theory Spec2Isabelle
  imports Complex_Main "HOL-Library.Multiset" "HOL-Library.AList"
    "HOL-Library.List_Lexorder" "HOL-Library.Char_ord" "HOL-Library.Word"
begin

section \<open>Numbers and arrays as numpy holds them\<close>

text \<open>
  The module \<^verbatim>\<open>modvir/vegind.py\<close> works on numpy arrays of floating-point numbers.
  A cell of such an array is a finite number, one of the two infinities, or the
  not-a-number marker. The finite values are modelled as real numbers: the arithmetic of
  this theory is exact, so the rounding of IEEE numbers, the sign of zero and the width
  of the array's element type (the cast \<^verbatim>\<open>astype\<close>) are outside the model. The special
  values follow IEEE 754 as numpy implements it: a \<^verbatim>\<open>nan\<close> operand gives \<^verbatim>\<open>nan\<close>,
  \<^verbatim>\<open>0/0\<close>, \<^verbatim>\<open>inf - inf\<close>, \<^verbatim>\<open>inf * 0\<close> and \<^verbatim>\<open>inf/inf\<close> give \<^verbatim>\<open>nan\<close>, \<^verbatim>\<open>x/0\<close> gives an
  infinity of the sign of \<^verbatim>\<open>x\<close>, and every comparison with \<^verbatim>\<open>nan\<close> is false.
\<close>

datatype fl = NaN | NInf | Fin real | PInf

type_synonym 'a ndarray = "'a list list"

fun np_negative :: "fl \<Rightarrow> fl" where
  "np_negative NaN = NaN"
| "np_negative NInf = PInf"
| "np_negative PInf = NInf"
| "np_negative (Fin a) = Fin (- a)"

fun np_add :: "fl \<Rightarrow> fl \<Rightarrow> fl" where
  "np_add (Fin a) (Fin b) = Fin (a + b)"
| "np_add NaN y = NaN"
| "np_add x NaN = NaN"
| "np_add PInf NInf = NaN"
| "np_add NInf PInf = NaN"
| "np_add PInf y = PInf"
| "np_add NInf y = NInf"
| "np_add (Fin a) y = y"

definition np_subtract :: "fl \<Rightarrow> fl \<Rightarrow> fl" where
  "np_subtract x y = np_add x (np_negative y)"

fun np_multiply :: "fl \<Rightarrow> fl \<Rightarrow> fl" where
  "np_multiply (Fin a) (Fin b) = Fin (a * b)"
| "np_multiply NaN y = NaN"
| "np_multiply x NaN = NaN"
| "np_multiply (Fin a) y =
     (if a = 0 then NaN else if 0 < a then y else np_negative y)"
| "np_multiply x (Fin b) =
     (if b = 0 then NaN else if 0 < b then x else np_negative x)"
| "np_multiply x y = (if x = y then PInf else NInf)"

fun np_divide :: "fl \<Rightarrow> fl \<Rightarrow> fl" where
  "np_divide (Fin a) (Fin b) =
     (if b = 0 then (if a = 0 then NaN else if 0 < a then PInf else NInf)
      else Fin (a / b))"
| "np_divide NaN y = NaN"
| "np_divide x NaN = NaN"
| "np_divide (Fin a) y = Fin 0"
| "np_divide x (Fin b) = (if 0 \<le> b then x else np_negative x)"
| "np_divide x y = NaN"

fun np_less :: "fl \<Rightarrow> fl \<Rightarrow> bool" where
  "np_less (Fin a) (Fin b) = (a < b)"
| "np_less NaN y = False"
| "np_less x NaN = False"
| "np_less x NInf = False"
| "np_less PInf y = False"
| "np_less x y = True"

fun np_less_equal :: "fl \<Rightarrow> fl \<Rightarrow> bool" where
  "np_less_equal (Fin a) (Fin b) = (a \<le> b)"
| "np_less_equal NaN y = False"
| "np_less_equal x NaN = False"
| "np_less_equal NInf y = True"
| "np_less_equal x PInf = True"
| "np_less_equal x y = False"

text \<open>\<^verbatim>\<open>np.minimum\<close> and \<^verbatim>\<open>np.maximum\<close> propagate \<^verbatim>\<open>nan\<close>.\<close>

fun np_minimum :: "fl \<Rightarrow> fl \<Rightarrow> fl" where
  "np_minimum NaN y = NaN"
| "np_minimum x NaN = NaN"
| "np_minimum x y = (if np_less_equal x y then x else y)"

fun np_maximum :: "fl \<Rightarrow> fl \<Rightarrow> fl" where
  "np_maximum NaN y = NaN"
| "np_maximum x NaN = NaN"
| "np_maximum x y = (if np_less_equal x y then y else x)"

fun np_isnan :: "fl \<Rightarrow> bool" where
  "np_isnan NaN = True"
| "np_isnan x = False"

section \<open>Module constants\<close>

definition NDVIMIN :: real where
  "NDVIMIN = - 0.3"

definition NDVI02P :: "real list" where
  "NDVI02P = [0.0330, 0.0330, 0.0330, 0.0330, 0.0330, 0.0330, 0.0330, 0.0330,
    0.0330, 0.0330, 0.0330, 0.0330, 0.0330, 0.0330, 0.0330, 0.0330, 0.0330,
    0.0330]"

definition NDVI98P :: "real list" where
  "NDVI98P = [0.7200, 0.8400, 0.8800, 0.8000, 0.8800, 0.8600, 0.7400, 0.7200,
    0.8000, 0.8000, 0.7200, 0.7800, 0.7800, 0.7800, 0.8200, 0.7200, 0.7200,
    0.7200]"

definition fPMIN :: real where
  "fPMIN = 0.01"

definition fPMAX :: real where
  "fPMAX = 0.95"

text \<open>
  Modelled from the spec: \<^verbatim>\<open>NTYPE\<close> is imported from \<^verbatim>\<open>modvir.config\<close>, which is not
  among the sources. Section 4.2 of the specification speaks of "a fixed 18-class
  table", the length of the two percentile tables above.
\<close>

definition NTYPE :: nat where
  "NTYPE = 18"

section \<open>The three conversions from NDVI to fPAR\<close>

text \<open>
  Each conversion works cell by cell: the boolean masks and the masked assignments of
  the source select, in every cell, which of the assignments reach it. A conversion is
  therefore a function of one cell, applied over the array.
\<close>

subsection \<open>\<^verbatim>\<open>_ndvi2fpar_jojo\<close>\<close>

definition jojo_cell :: "fl \<Rightarrow> fl" where
  "jojo_cell ndvi =
     (let fpar = Fin 0;
          N0 = 0.15;
          N1 = 0.75;
          iramp = (np_less (Fin N0) ndvi \<and> np_less_equal ndvi (Fin N1));
          ifree = np_less (Fin N1) ndvi;
          fpar = (if iramp
                  then np_multiply
                         (np_divide (np_subtract ndvi (Fin N0)) (Fin (N1 - N0))) (Fin N1)
                  else fpar);
          fpar = (if ifree then ndvi else fpar);
          fpar = (if np_isnan fpar then Fin 0 else fpar)
      in fpar)"

definition ndvi2fpar_jojo :: "fl ndarray \<Rightarrow> fl ndarray" where
  "ndvi2fpar_jojo ndvi = map (map jojo_cell) ndvi"

subsection \<open>\<^verbatim>\<open>_ndvi2fpar_lin\<close>\<close>

definition lin_cell :: "fl \<Rightarrow> fl" where
  "lin_cell ndvi =
     (let N0 = 0.10;
          N1 = 0.80;
          fpar = np_add
                   (np_divide (np_multiply (np_subtract ndvi (Fin N0)) (Fin (fPMAX - fPMIN)))
                      (Fin (N1 - N0)))
                   (Fin fPMIN);
          fpar = np_maximum (Fin fPMIN) (np_minimum (Fin fPMAX) fpar);
          fpar = (if np_isnan fpar then Fin 0 else fpar)
      in fpar)"

definition ndvi2fpar_lin :: "fl ndarray \<Rightarrow> fl ndarray" where
  "ndvi2fpar_lin ndvi = map (map lin_cell) ndvi"

subsection \<open>\<^verbatim>\<open>_ndvi2fpar_los\<close>\<close>

datatype error =
    EOFError string
  | KeyError string
  | ValueError string
  | IndexError string
  | FloatingPointError string

definition srfun :: "fl \<Rightarrow> fl" where
  "srfun xx = np_divide (np_add (Fin 1) xx) (np_subtract (Fin 1) xx)"

text \<open>
  The body of the loop over the land-cover types, in one cell: the value that iteration
  \<open>nn\<close> computes for the cell (the right-hand side of the masked assignment).
\<close>

definition los_cell :: "nat \<Rightarrow> fl \<Rightarrow> fl" where
  "los_cell nn ndvi =
     (let N0 = Fin (NDVI02P ! nn);
          N1 = Fin (NDVI98P ! nn);
          S0 = srfun N0;
          S1 = srfun N1;
          sr = srfun (np_minimum ndvi N1);
          fpsr = np_add
                   (np_divide (np_multiply (np_subtract sr S0) (Fin (fPMAX - fPMIN)))
                      (np_subtract S1 S0))
                   (Fin fPMIN);
          fpnd = np_add
                   (np_divide (np_multiply (np_subtract ndvi N0) (Fin (fPMAX - fPMIN)))
                      (np_subtract N1 N0))
                   (Fin fPMIN);
          fpsr = np_maximum (Fin fPMIN) (np_minimum (Fin fPMAX) fpsr);
          fpnd = np_maximum (Fin fPMIN) (np_minimum (Fin fPMAX) fpnd)
      in np_multiply (Fin 0.5) (np_add fpsr fpnd))"

text \<open>
  One iteration: \<^verbatim>\<open>ime = lctype == nn\<close> and \<^verbatim>\<open>fpar[ime] = ...\<close> overwrite the cells of
  type \<open>nn\<close> and leave the others as they are.
\<close>

definition los_step :: "fl ndarray \<Rightarrow> int ndarray \<Rightarrow> fl ndarray \<Rightarrow> nat \<Rightarrow> fl ndarray" where
  "los_step ndvi lctype fpar nn =
     map2 (\<lambda>frow (nrow, lrow).
             map2 (\<lambda>f (x, l). if l = int nn then los_cell nn x else f) frow (zip nrow lrow))
       fpar (zip ndvi lctype)"

text \<open>
  A boolean index whose shape is not the shape of the indexed array makes numpy raise
  \<^verbatim>\<open>IndexError\<close>, in the first iteration.
\<close>

definition ndvi2fpar_los :: "fl ndarray \<Rightarrow> int ndarray \<Rightarrow> error + fl ndarray" where
  "ndvi2fpar_los ndvi lctype =
     (if map length lctype = map length ndvi
      then Inr (map (map (\<lambda>f. if np_isnan f then Fin 0 else f))
                 (foldl (los_step ndvi lctype) (map (map (\<lambda>x. Fin 0)) ndvi) [0..<NTYPE]))
      else Inl (IndexError ''boolean index did not match indexed array''))"

section \<open>The dataset\<close>

text \<open>
  \<^verbatim>\<open>VegInd\<close> is an \<^verbatim>\<open>xarray.Dataset\<close> on the dimensions \<^verbatim>\<open>lat\<close> and \<^verbatim>\<open>lon\<close>: two
  coordinate arrays, the data variables by name (in insertion order) and the global
  attributes. A variable holds its dimension names, its values and its attributes.
\<close>

record variable =
  dims :: "string list"
  data :: "fl ndarray"
  var_attrs :: "(string \<times> string) list"

record dataset =
  lat :: "real list"
  lon :: "real list"
  data_vars :: "(string \<times> variable) list"
  attrs :: "(string \<times> string) list"

definition shape_is :: "nat \<Rightarrow> nat \<Rightarrow> 'a ndarray \<Rightarrow> bool" where
  "shape_is nrow ncol a = (map length a = replicate nrow ncol)"

text \<open>
  \<^verbatim>\<open>ds[name].values\<close> raises \<^verbatim>\<open>KeyError\<close> for a name the dataset does not hold;
  assigning to it needs an array of the variable's shape.
\<close>

definition get_values :: "dataset \<Rightarrow> string \<Rightarrow> error + fl ndarray" where
  "get_values ds name =
     (case map_of (data_vars ds) name of
        None \<Rightarrow> Inl (KeyError name)
      | Some v \<Rightarrow> Inr (data v))"

definition set_values :: "dataset \<Rightarrow> string \<Rightarrow> fl ndarray \<Rightarrow> error + dataset" where
  "set_values ds name a =
     (case map_of (data_vars ds) name of
        None \<Rightarrow> Inl (KeyError name)
      | Some v \<Rightarrow>
          if map length a = map length (data v)
          then Inr (ds\<lparr>data_vars := AList.update name (v\<lparr>data := a\<rparr>) (data_vars ds)\<rparr>)
          else Inl (ValueError ''replacement data must match the shape of the variable''))"

text \<open>
  \<^verbatim>\<open>Dataset.assign\<close> returns a new dataset with the variable added, or replaced when the
  name is taken; the variable must fit the sizes of the dimensions it names.
\<close>

definition assign :: "dataset \<Rightarrow> string \<Rightarrow> variable \<Rightarrow> error + dataset" where
  "assign ds name v =
     (if dims v = [''lat'', ''lon''] \<and> shape_is (length (lat ds)) (length (lon ds)) (data v)
      then Inr (ds\<lparr>data_vars := AList.update name v (data_vars ds)\<rparr>)
      else Inl (ValueError ''conflicting sizes for dimension''))"

text \<open>
  A method is a function of the receiver that returns its result, or the exception it
  raises, together with the receiver as the call leaves it.
\<close>

definition VegInd_ndvi2fpar :: "dataset \<Rightarrow> int ndarray \<Rightarrow> (error + dataset) \<times> dataset" where
  "VegInd_ndvi2fpar self lctype =
     (case get_values self ''NDVI'' of
        Inl e \<Rightarrow> (Inl e, self)
      | Inr ndvi \<Rightarrow>
          let fpar = ndvi2fpar_jojo ndvi
          in (assign self ''fPAR''
                \<lparr>dims = [''lat'', ''lon''], data = fpar,
                 var_attrs = [(''long_name'',
                     ''Fraction (absorbed) Photosynthetically Available '' @
                     ''Radiation (fPAR)''), (''units'', ''1'')]\<rparr>,
              self))"

section \<open>Aggregation of the granules: \<^verbatim>\<open>_regrid\<close>\<close>

subsection \<open>What the collaborators hand over\<close>

text \<open>
  A granule file, once read, is a set of aligned arrays over the pixels of the
  sinusoidal mesh: the latitude and longitude that \<^verbatim>\<open>singrid\<close> gives, the two
  reflectances and their two quality flags. The arrays are only ever indexed by one
  common boolean mask, so a granule is modelled as the list of its pixels. The files
  store the reflectances as signed 16-bit integers, with 32767 for a missing value, and
  the quality flags as unsigned 8-bit integers, with 255 for an unusable pixel; the
  arrays are read as they are stored, so sums and differences of reflectances wrap
  around. A directory is what \<^verbatim>\<open>glob\<close> finds in it: the paths
  that match \<^verbatim>\<open>*.hdf\<close>, in the order \<^verbatim>\<open>glob\<close> lists them, each with the granule that
  reading it gives. The function \<^verbatim>\<open>edges\<close> of \<^verbatim>\<open>modvir.geometry\<close> is not among the
  sources: it is a parameter of the model.
\<close>

record pixel =
  LAin :: real
  LOin :: real
  redin :: "16 word"
  redqc :: "8 word"
  nirin :: "16 word"
  nirqc :: "8 word"

type_synonym granule = "pixel list"

type_synonym directory = "(string \<times> granule) list"

subsection \<open>The pixel filter\<close>

text \<open>
  The arithmetic of line 71 is the arithmetic of the arrays: \<^verbatim>\<open>abs\<close>, \<^verbatim>\<open>nirin + redin\<close> and
  \<^verbatim>\<open>nirin - redin\<close> are 16-bit operations that wrap around, and only the product with
  \<^verbatim>\<open>NDVIMIN\<close> and the comparison are done in floating point, on the numbers that the
  16-bit results hold.
\<close>

definition float64 :: "16 word \<Rightarrow> real" where
  "float64 x = real_of_int (sint x)"

definition absolute :: "16 word \<Rightarrow> 16 word" where
  "absolute x = (if sint x < 0 then - x else x)"

definition iok :: "pixel \<Rightarrow> bool" where
  "iok p =
     (sint (absolute (redin p)) \<noteq> 32767 \<and> redqc p \<noteq> 255 \<and>
      sint (absolute (nirin p)) \<noteq> 32767 \<and> nirqc p \<noteq> 255 \<and>
      NDVIMIN * float64 (nirin p + redin p) \<le> float64 (nirin p - redin p))"

text \<open>
  The weights of the two weighted histograms: numpy converts the reflectances of the
  eligible pixels to floating point before it sums them.
\<close>

definition redval :: "pixel \<Rightarrow> real" where
  "redval p = float64 (redin p)"

definition nirval :: "pixel \<Rightarrow> real" where
  "nirval p = float64 (nirin p)"

subsection \<open>\<^verbatim>\<open>np.histogram2d\<close>\<close>

text \<open>
  With arrays of edges as bins, numpy places a sample by \<^verbatim>\<open>searchsorted\<close> from the
  right, moves a sample that sits on the last edge into the last bin, and drops the
  samples outside the edges. On sorted edges the insertion index from the right is the
  number of edges that are not above the sample. Edges that do not increase
  monotonically are refused. The result has one row for each interval of the first
  edges and one column for each interval of the second; \<open>table\<close> builds an array from
  the value of each cell.
\<close>

definition table :: "nat \<Rightarrow> nat \<Rightarrow> (nat \<Rightarrow> nat \<Rightarrow> 'a) \<Rightarrow> 'a ndarray" where
  "table nrow ncol f = map (\<lambda>i. map (\<lambda>j. f i j) [0..<ncol]) [0..<nrow]"

definition searchsorted_right :: "real list \<Rightarrow> real \<Rightarrow> nat" where
  "searchsorted_right a v = length (filter (\<lambda>e. e \<le> v) a)"

definition bin_index :: "real list \<Rightarrow> real \<Rightarrow> nat option" where
  "bin_index es v =
     (let n = searchsorted_right es v;
          n = (if v = last es then n - 1 else n)
      in if 1 \<le> n \<and> n < length es then Some (n - 1) else None)"

definition histogram2d ::
  "real list \<Rightarrow> real list \<Rightarrow> real list \<times> real list \<Rightarrow> real list option \<Rightarrow> error + real ndarray"
where
  "histogram2d x y bins weights =
     (let xedges = fst bins;
          yedges = snd bins;
          w = (case weights of None \<Rightarrow> replicate (length x) 1 | Some w \<Rightarrow> w)
      in if xedges = [] \<or> yedges = [] \<or> \<not> sorted xedges \<or> \<not> sorted yedges
         then Inl (ValueError ''bins must be monotonically increasing'')
         else if length y \<noteq> length x \<or> length w \<noteq> length x
         then Inl (ValueError ''x, y and weights must have the same length'')
         else Inr (table (length xedges - 1) (length yedges - 1)
                     (\<lambda>i j. sum_list (map (\<lambda>(xv, yv, wv).
                         if bin_index xedges xv = Some i \<and> bin_index yedges yv = Some j
                         then wv else 0)
                       (zip x (zip y w))))))"

subsection \<open>Element-wise arithmetic on arrays\<close>

text \<open>
  Two arrays combine cell by cell after broadcasting: in each of the two dimensions the
  lengths must be equal, or one of them is one and that array is stretched along the
  dimension; otherwise numpy raises \<^verbatim>\<open>ValueError\<close>. The arrays are rectangular: every
  row has the length of the first. An array without rows has no columns here.
\<close>

definition zeros :: "nat \<Rightarrow> nat \<Rightarrow> real ndarray" where
  "zeros nrow ncol = replicate nrow (replicate ncol 0)"

definition shape :: "'a ndarray \<Rightarrow> nat \<times> nat" where
  "shape a = (length a, case a of [] \<Rightarrow> 0 | row # rows \<Rightarrow> length row)"

definition broadcast_dim :: "nat \<Rightarrow> nat \<Rightarrow> nat option" where
  "broadcast_dim m n =
     (if m = n then Some m else if m = 1 then Some n else if n = 1 then Some m else None)"

definition stretched :: "'a ndarray \<Rightarrow> nat \<Rightarrow> nat \<Rightarrow> 'a" where
  "stretched a i j =
     (let row = a ! (if length a = 1 then 0 else i)
      in row ! (if length row = 1 then 0 else j))"

definition elementwise ::
  "('a \<Rightarrow> 'b \<Rightarrow> 'c) \<Rightarrow> 'a ndarray \<Rightarrow> 'b ndarray \<Rightarrow> error + 'c ndarray"
where
  "elementwise f a b =
     (case (broadcast_dim (fst (shape a)) (fst (shape b)),
            broadcast_dim (snd (shape a)) (snd (shape b))) of
        (Some nrow, Some ncol) \<Rightarrow>
          Inr (table nrow ncol (\<lambda>i j. f (stretched a i j) (stretched b i j)))
      | _ \<Rightarrow> Inl (ValueError ''operands could not be broadcast together''))"

subsection \<open>The loop over the files\<close>

text \<open>
  One pass of the loop body: the three histograms of the eligible pixels of a granule,
  added to the running arrays.
\<close>

fun regrid_loop ::
  "real list \<times> real list \<Rightarrow> real ndarray \<times> real ndarray \<times> real ndarray \<Rightarrow> directory \<Rightarrow>
   error + real ndarray \<times> real ndarray \<times> real ndarray"
where
  "regrid_loop bins (num, red, nir) [] = Inr (num, red, nir)"
| "regrid_loop bins (num, red, nir) (ff # flist) =
     (let dsin = snd ff;
          LAok = map LAin (filter iok dsin);
          LOok = map LOin (filter iok dsin)
      in case histogram2d LAok LOok bins None of
           Inl e \<Rightarrow> Inl e
         | Inr numgran \<Rightarrow>
        (case histogram2d LAok LOok bins (Some (map redval (filter iok dsin))) of
           Inl e \<Rightarrow> Inl e
         | Inr redgran \<Rightarrow>
        (case histogram2d LAok LOok bins (Some (map nirval (filter iok dsin))) of
           Inl e \<Rightarrow> Inl e
         | Inr nirgran \<Rightarrow>
        (case elementwise (+) num numgran of
           Inl e \<Rightarrow> Inl e
         | Inr num' \<Rightarrow>
        (case elementwise (+) red redgran of
           Inl e \<Rightarrow> Inl e
         | Inr red' \<Rightarrow>
        (case elementwise (+) nir nirgran of
           Inl e \<Rightarrow> Inl e
         | Inr nir' \<Rightarrow> regrid_loop bins (num', red', nir') flist))))))"

subsection \<open>The guarded division\<close>

text \<open>
  numpy notes the floating-point conditions that an operation meets and treats each
  kind as the error state says: it stays silent, prints a \<^verbatim>\<open>RuntimeWarning\<close>, or raises
  \<^verbatim>\<open>FloatingPointError\<close>. A division flags "divide by zero" for a nonzero number over
  zero and "invalid value" for zero over zero and for an infinity over an infinity.
\<close>

datatype fpcond = FP_divide | FP_invalid

datatype errmode = Ignore | Warn | Raise

record errstate =
  divide_mode :: errmode
  invalid_mode :: errmode

datatype diagnostic = RuntimeWarning string

fun divide_cond :: "fl \<Rightarrow> fl \<Rightarrow> fpcond option" where
  "divide_cond (Fin a) (Fin b) =
     (if b = 0 then (if a = 0 then Some FP_invalid else Some FP_divide) else None)"
| "divide_cond NaN y = None"
| "divide_cond x NaN = None"
| "divide_cond (Fin a) y = None"
| "divide_cond x (Fin b) = None"
| "divide_cond x y = Some FP_invalid"

definition true_divide ::
  "errstate \<Rightarrow> fl ndarray \<Rightarrow> fl ndarray \<Rightarrow> error + fl ndarray \<times> diagnostic list"
where
  "true_divide st a b =
     (case elementwise np_divide a b of
        Inl e \<Rightarrow> Inl e
      | Inr q \<Rightarrow>
     (case elementwise divide_cond a b of
        Inl e \<Rightarrow> Inl e
      | Inr c \<Rightarrow>
          let conds = concat c;
              div0 = (Some FP_divide \<in> set conds);
              inval = (Some FP_invalid \<in> set conds)
          in if div0 \<and> divide_mode st = Raise
             then Inl (FloatingPointError ''divide by zero encountered in divide'')
             else if inval \<and> invalid_mode st = Raise
             then Inl (FloatingPointError ''invalid value encountered in divide'')
             else Inr (q,
               (if div0 \<and> divide_mode st = Warn
                then [RuntimeWarning ''divide by zero encountered in divide''] else []) @
               (if inval \<and> invalid_mode st = Warn
                then [RuntimeWarning ''invalid value encountered in divide''] else []))))"

text \<open>
  The block \<^verbatim>\<open>with np.errstate(divide='ignore', invalid='ignore')\<close>: the ratio of the
  accumulated sums. Both sums have the shape of the grid; their difference and their
  sum are finite.
\<close>

definition ndvi_ratio ::
  "real ndarray \<Rightarrow> real ndarray \<Rightarrow> error + fl ndarray \<times> diagnostic list"
where
  "ndvi_ratio nir red =
     true_divide \<lparr>divide_mode = Ignore, invalid_mode = Ignore\<rparr>
       (map2 (map2 (\<lambda>n r. Fin (n - r))) nir red)
       (map2 (map2 (\<lambda>n r. Fin (n + r))) nir red)"

subsection \<open>The mask\<close>

text \<open>The optional argument \<^verbatim>\<open>mask\<close> is written \<open>msk\<close>; \<^verbatim>\<open>None\<close> is its default.\<close>

definition blend_cell :: "fl \<Rightarrow> fl \<Rightarrow> fl" where
  "blend_cell ndvi m =
     np_add (np_multiply (np_subtract ndvi (Fin NDVIMIN)) m) (Fin NDVIMIN)"

definition apply_mask :: "fl ndarray \<Rightarrow> fl ndarray option \<Rightarrow> error + fl ndarray" where
  "apply_mask ndvi msk =
     (case msk of
        None \<Rightarrow> Inr ndvi
      | Some m \<Rightarrow> elementwise blend_cell ndvi m)"

subsection \<open>File names\<close>

definition basename :: "string \<Rightarrow> string" where
  "basename p = rev (takeWhile (\<lambda>c. c \<noteq> CHR ''/'') (rev p))"

fun join :: "string \<Rightarrow> string list \<Rightarrow> string" where
  "join sep [] = []"
| "join sep [s] = s"
| "join sep (s # t # ts) = s @ sep @ join sep (t # ts)"

subsection \<open>\<^verbatim>\<open>_regrid\<close> and the method \<^verbatim>\<open>VegInd.regrid\<close>\<close>

text \<open>
  The function fills \<^verbatim>\<open>dsout\<close> in place and returns it. Its result here is the returned
  dataset, or the exception raised, together with \<^verbatim>\<open>dsout\<close> as the call leaves it. The
  diagnostics of the guarded division are dropped: under the error state of the block
  there are none.
\<close>

definition regrid ::
  "(nat \<Rightarrow> nat \<Rightarrow> real list \<times> real list) \<Rightarrow> dataset \<Rightarrow> directory \<Rightarrow> fl ndarray option \<Rightarrow>
   (error + dataset) \<times> dataset"
where
  "regrid edges dsout dirin msk =
     (let nlat = length (lat dsout);
          nlon = length (lon dsout);
          bins = edges nlat nlon;
          flist = dirin
      in if length flist = 0 then (Inl (EOFError ''no files to open''), dsout)
         else
          case regrid_loop bins (zeros nlat nlon, zeros nlat nlon, zeros nlat nlon) flist of
            Inl e \<Rightarrow> (Inl e, dsout)
          | Inr (num, red, nir) \<Rightarrow>
         (case ndvi_ratio nir red of
            Inl e \<Rightarrow> (Inl e, dsout)
          | Inr (ndvi, diags) \<Rightarrow>
         (case apply_mask ndvi msk of
            Inl e \<Rightarrow> (Inl e, dsout)
          | Inr ndvi \<Rightarrow>
         (case set_values dsout ''NDVI'' ndvi of
            Inl e \<Rightarrow> (Inl e, dsout)
          | Inr ds \<Rightarrow>
              let ds = ds\<lparr>attrs := AList.update ''input_files''
                          (join '', '' (map (\<lambda>ff. basename (fst ff)) flist)) (attrs ds)\<rparr>
              in (Inr ds, ds)))))"

definition VegInd_regrid ::
  "(nat \<Rightarrow> nat \<Rightarrow> real list \<times> real list) \<Rightarrow> dataset \<Rightarrow> directory \<Rightarrow> fl ndarray option \<Rightarrow>
   (error + dataset) \<times> dataset"
where
  "VegInd_regrid edges self dirin msk = regrid edges self dirin msk"

section \<open>Notions of the specification\<close>

text \<open>
  The reference map of Policy C, written from the specification: zero up to \<open>N0\<close>, the
  ramp up to \<open>N1\<close>, the identity above, and zero for an undefined NDVI, with
  \<open>N0 = 0.15\<close> and \<open>N1 = 0.75\<close>.
\<close>

fun policy_C_reference :: "fl \<Rightarrow> fl" where
  "policy_C_reference NaN = Fin 0"
| "policy_C_reference NInf = Fin 0"
| "policy_C_reference PInf = PInf"
| "policy_C_reference (Fin ndvi) =
     (if ndvi \<le> 0.15 then Fin 0
      else if ndvi \<le> 0.75 then Fin ((ndvi - 0.15) / (0.75 - 0.15) * 0.75)
      else Fin ndvi)"

text \<open>A cell agrees with an expected number within a tolerance.\<close>

fun within_tolerance :: "real \<Rightarrow> fl \<Rightarrow> real \<Rightarrow> bool" where
  "within_tolerance tol (Fin v) expected = (\<bar>v - expected\<bar> \<le> tol)"
| "within_tolerance tol x expected = False"

text \<open>
  A grid of \<open>nlat\<close> rows and \<open>nlon\<close> columns has one more edge than cells in each
  direction, and numpy needs the edges in increasing order.
\<close>

definition grid_ok :: "nat \<Rightarrow> nat \<Rightarrow> real list \<times> real list \<Rightarrow> bool" where
  "grid_ok nlat nlon bins =
     (length (fst bins) = nlat + 1 \<and> length (snd bins) = nlon + 1 \<and>
      sorted (fst bins) \<and> sorted (snd bins))"

text \<open>
  The pixels of a granule that fall into a cell, and the total of a weight over the
  eligible ones among them, for one granule and for a list of files.
\<close>

definition in_cell :: "real list \<times> real list \<Rightarrow> nat \<Rightarrow> nat \<Rightarrow> pixel \<Rightarrow> bool" where
  "in_cell bins i j p =
     (bin_index (fst bins) (LAin p) = Some i \<and> bin_index (snd bins) (LOin p) = Some j)"

definition cell_total ::
  "real list \<times> real list \<Rightarrow> (pixel \<Rightarrow> real) \<Rightarrow> nat \<Rightarrow> nat \<Rightarrow> granule \<Rightarrow> real" where
  "cell_total bins w i j ps = sum_list (map w (filter (in_cell bins i j) (filter iok ps)))"

definition files_total ::
  "real list \<times> real list \<Rightarrow> (pixel \<Rightarrow> real) \<Rightarrow> nat \<Rightarrow> nat \<Rightarrow> directory \<Rightarrow> real" where
  "files_total bins w i j flist = (\<Sum>ff\<leftarrow>flist. cell_total bins w i j (snd ff))"

text \<open>
  The merge of two partial accumulators, as the specification describes it: the
  element-wise sum of the counts, of the red sums and of the near-infrared sums.
\<close>

definition merge ::
  "real ndarray \<times> real ndarray \<times> real ndarray \<Rightarrow> real ndarray \<times> real ndarray \<times> real ndarray \<Rightarrow>
   error + real ndarray \<times> real ndarray \<times> real ndarray"
where
  "merge a b =
     (case elementwise (+) (fst a) (fst b) of
        Inl e \<Rightarrow> Inl e
      | Inr num \<Rightarrow>
     (case elementwise (+) (fst (snd a)) (fst (snd b)) of
        Inl e \<Rightarrow> Inl e
      | Inr red \<Rightarrow>
     (case elementwise (+) (snd (snd a)) (snd (snd b)) of
        Inl e \<Rightarrow> Inl e
      | Inr nir \<Rightarrow> Inr (num, red, nir))))"

text \<open>
  The output dataset is ready for \<^verbatim>\<open>_regrid\<close> when the edges fit its two dimensions,
  it holds an NDVI variable of the shape of the grid, and the mask, if there is one, has
  that shape too.
\<close>

definition regrid_ready ::
  "(nat \<Rightarrow> nat \<Rightarrow> real list \<times> real list) \<Rightarrow> dataset \<Rightarrow> fl ndarray option \<Rightarrow> bool"
where
  "regrid_ready edges dsout msk =
     (let nlat = length (lat dsout);
          nlon = length (lon dsout)
      in grid_ok nlat nlon (edges nlat nlon) \<and>
         (case map_of (data_vars dsout) ''NDVI'' of
            None \<Rightarrow> False
          | Some v \<Rightarrow> shape_is nlat nlon (data v)) \<and>
         (case msk of None \<Rightarrow> True | Some m \<Rightarrow> shape_is nlat nlon m))"

text \<open>The NDVI that a pixel implies by itself, the ratio of the specification.\<close>

definition implied_ndvi :: "pixel \<Rightarrow> fl" where
  "implied_ndvi p = np_divide (Fin (nirval p - redval p)) (Fin (nirval p + redval p))"



text \<open>
  The blend of line 91 in floating-point arithmetic: every finite result of the
  subtraction, the product and the sum is rounded, by a rounding \<open>rnd\<close>. The blend of
  the model is the one whose rounding changes nothing.
\<close>

fun round_fl :: "(real \<Rightarrow> real) \<Rightarrow> fl \<Rightarrow> fl" where
  "round_fl rnd (Fin x) = Fin (rnd x)"
| "round_fl rnd y = y"

definition blend_cell_rounded :: "(real \<Rightarrow> real) \<Rightarrow> fl \<Rightarrow> fl \<Rightarrow> fl" where
  "blend_cell_rounded rnd ndvi m =
     round_fl rnd (np_add
       (round_fl rnd (np_multiply (round_fl rnd (np_subtract ndvi (Fin NDVIMIN))) m))
       (Fin NDVIMIN))"

text \<open>
  The cells of the NDVI that \<^verbatim>\<open>_regrid\<close> stores: the ratio of the totals over all the
  files, blended with the cell of the mask when there is one; and the dataset that the
  function leaves, given the NDVI variable \<open>v\<close> that the dataset held before.
\<close>

definition ratio_cell :: "real list \<times> real list \<Rightarrow> directory \<Rightarrow> nat \<Rightarrow> nat \<Rightarrow> fl" where
  "ratio_cell bins flist i j =
     np_divide (Fin (files_total bins nirval i j flist - files_total bins redval i j flist))
               (Fin (files_total bins nirval i j flist + files_total bins redval i j flist))"

definition masked_cell :: "fl ndarray option \<Rightarrow> nat \<Rightarrow> nat \<Rightarrow> fl \<Rightarrow> fl" where
  "masked_cell msk i j x = (case msk of None \<Rightarrow> x | Some m \<Rightarrow> blend_cell x (m ! i ! j))"

definition regrid_output ::
  "(nat \<Rightarrow> nat \<Rightarrow> real list \<times> real list) \<Rightarrow> dataset \<Rightarrow> directory \<Rightarrow> fl ndarray option \<Rightarrow>
   variable \<Rightarrow> dataset"
where
  "regrid_output edges dsout dirin msk v =
     (let nlat = length (lat dsout);
          nlon = length (lon dsout);
          bins = edges nlat nlon
      in dsout\<lparr>data_vars := AList.update ''NDVI''
                   (v\<lparr>data := table nlat nlon
                       (\<lambda>i j. masked_cell msk i j (ratio_cell bins dirin i j))\<rparr>)
                   (data_vars dsout),
               attrs := AList.update ''input_files''
                   (join '', '' (map (\<lambda>ff. basename (fst ff)) dirin)) (attrs dsout)\<rparr>)"

text \<open>
  The loop of \<^verbatim>\<open>_ndvi2fpar_los\<close> in closed form: what a cell of NDVI \<open>x\<close> and land-cover
  type \<open>l\<close> ends with.
\<close>

definition los_final :: "fl \<Rightarrow> int \<Rightarrow> fl" where
  "los_final x l =
     (let f = (if 0 \<le> l \<and> l < int NTYPE then los_cell (nat l) x else Fin 0)
      in if np_isnan f then Fin 0 else f)"

text \<open>
  The provenance list as the specification words it: the base names of the files in
  sorted order.
\<close>

definition sorted_basenames :: "directory \<Rightarrow> string list" where
  "sorted_basenames flist = sort (map (\<lambda>ff. basename (fst ff)) flist)"

subsection \<open>Sample inputs\<close>

text \<open>
  Edges at the whole numbers, a dataset as the constructor of \<^verbatim>\<open>VegInd\<close> builds it (an
  NDVI variable full of \<^verbatim>\<open>nan\<close> on the cell centres, the attribute \<^verbatim>\<open>input_files\<close> empty),
  and a pixel whose two quality flags are zero.
\<close>

definition unit_edges :: "nat \<Rightarrow> nat \<Rightarrow> real list \<times> real list" where
  "unit_edges nlat nlon = (map real [0..<nlat + 1], map real [0..<nlon + 1])"

definition sample_dataset :: "nat \<Rightarrow> nat \<Rightarrow> dataset" where
  "sample_dataset nlat nlon =
     \<lparr>lat = map (\<lambda>i. real i + 0.5) [0..<nlat], lon = map (\<lambda>j. real j + 0.5) [0..<nlon],
      data_vars = [(''NDVI'', \<lparr>dims = [''lat'', ''lon''],
          data = replicate nlat (replicate nlon NaN),
          var_attrs = [(''long_name'', ''Normalized difference vegetation index (NDVI)''),
            (''units'', ''1'')]\<rparr>)],
      attrs = [(''Conventions'', ''CF-1.9''),
        (''institution'', ''NASA Goddard Space Flight Center''),
        (''contact'', ''Brad Weir <brad.weir@nasa.gov>''),
        (''title'', ''MODIS/VIIRS daily vegetation (NDVI/fPAR) data''),
        (''input_files'', [])]\<rparr>"

definition pixel_at :: "real \<Rightarrow> real \<Rightarrow> 16 word \<Rightarrow> 16 word \<Rightarrow> pixel" where
  "pixel_at la lo r n = \<lparr>LAin = la, LOin = lo, redin = r, redqc = 0, nirin = n, nirqc = 0\<rparr>"

section \<open>Arrays: shapes and cells\<close>

lemma table_nth:
  "i < nrow \<Longrightarrow> j < ncol \<Longrightarrow> table nrow ncol f ! i ! j = f i j"
  by (simp add: table_def)

lemma table_shape: "shape_is nrow ncol (table nrow ncol f)"
  by (simp add: shape_is_def table_def comp_def map_replicate_const)

lemma table_cong:
  "(\<And>i j. i < nrow \<Longrightarrow> j < ncol \<Longrightarrow> f i j = g i j) \<Longrightarrow> table nrow ncol f = table nrow ncol g"
  by (simp add: table_def)

lemma shape_is_length: "shape_is nrow ncol a \<Longrightarrow> length a = nrow"
  unfolding shape_is_def by (metis length_map length_replicate)

lemma shape_is_row: "shape_is nrow ncol a \<Longrightarrow> i < nrow \<Longrightarrow> length (a ! i) = ncol"
  unfolding shape_is_def
  by (metis length_map length_replicate nth_map nth_replicate)

lemma shape_is_zeros: "shape_is nrow ncol (zeros nrow ncol)"
  by (simp add: shape_is_def zeros_def)

lemma zeros_nth: "i < nrow \<Longrightarrow> j < ncol \<Longrightarrow> zeros nrow ncol ! i ! j = 0"
  by (simp add: zeros_def)

lemma ndarray_eqI:
  assumes "shape_is nrow ncol a" and "shape_is nrow ncol b"
    and "\<And>i j. i < nrow \<Longrightarrow> j < ncol \<Longrightarrow> a ! i ! j = b ! i ! j"
  shows "a = b"
proof (rule nth_equalityI)
  show "length a = length b"
    using assms(1,2) by (simp add: shape_is_length)
next
  fix i assume "i < length a"
  then have i: "i < nrow" using assms(1) by (simp add: shape_is_length)
  show "a ! i = b ! i"
  proof (rule nth_equalityI)
    show "length (a ! i) = length (b ! i)"
      using assms(1,2) i by (simp add: shape_is_row)
  next
    fix j assume "j < length (a ! i)"
    then have "j < ncol" using assms(1) i by (simp add: shape_is_row)
    then show "a ! i ! j = b ! i ! j" using assms(3) i by simp
  qed
qed

lemma map2_shape:
  assumes "shape_is nrow ncol a" and "shape_is nrow ncol b"
  shows "shape_is nrow ncol (map2 (map2 f) a b)"
proof -
  have la: "length a = nrow" and lb: "length b = nrow"
    using assms by (simp_all add: shape_is_length)
  have "map length (map2 (map2 f) a b) = replicate nrow ncol"
  proof (rule nth_equalityI)
    show "length (map length (map2 (map2 f) a b)) = length (replicate nrow ncol)"
      using la lb by simp
  next
    fix i assume "i < length (map length (map2 (map2 f) a b))"
    then have i: "i < nrow" using la lb by simp
    then show "map length (map2 (map2 f) a b) ! i = replicate nrow ncol ! i"
      using la lb assms by (simp add: shape_is_row)
  qed
  then show ?thesis by (simp add: shape_is_def)
qed

lemma map2_nth:
  assumes "shape_is nrow ncol a" and "shape_is nrow ncol b" and "i < nrow" and "j < ncol"
  shows "map2 (map2 f) a b ! i ! j = f (a ! i ! j) (b ! i ! j)"
  using assms by (simp add: shape_is_length shape_is_row)

lemma shape_of_shape_is:
  assumes "shape_is nrow ncol a"
  shows "shape a = (nrow, if nrow = 0 then 0 else ncol)"
proof (cases a)
  case Nil
  then show ?thesis using assms by (simp add: shape_def shape_is_def)
next
  case (Cons row rows)
  have len: "length a = nrow"
    by (rule shape_is_length [OF assms])
  then have "0 < nrow"
    using Cons by auto
  moreover note len
  moreover have "length row = ncol"
    using shape_is_row [OF assms \<open>0 < nrow\<close>] Cons by simp
  ultimately show ?thesis using Cons by (simp add: shape_def)
qed

lemma stretched_nth:
  assumes "shape_is nrow ncol a" and "i < nrow" and "j < ncol"
  shows "stretched a i j = a ! i ! j"
proof -
  have "length a = nrow" and "length (a ! i) = ncol"
    using assms by (simp_all add: shape_is_length shape_is_row)
  then show ?thesis
    using assms(2,3) by (auto simp: stretched_def Let_def)
qed

lemma elementwise_same_shape:
  assumes "shape_is nrow ncol a" and "shape_is nrow ncol b"
  shows "elementwise f a b = Inr (map2 (map2 f) a b)"
proof -
  let ?c = "if nrow = 0 then 0 else ncol"
  let ?t = "table nrow ?c (\<lambda>i j. f (stretched a i j) (stretched b i j))"
  have e: "elementwise f a b = Inr ?t"
    by (simp add: elementwise_def shape_of_shape_is [OF assms(1)]
        shape_of_shape_is [OF assms(2)] broadcast_dim_def)
  have "?t = map2 (map2 f) a b"
  proof (rule ndarray_eqI [of nrow ncol])
    show "shape_is nrow ncol ?t"
      by (cases "nrow = 0") (simp_all add: table_shape, simp add: table_def shape_is_def)
    show "shape_is nrow ncol (map2 (map2 f) a b)"
      by (rule map2_shape [OF assms])
    fix i j assume ij: "i < nrow" "j < ncol"
    then show "?t ! i ! j = map2 (map2 f) a b ! i ! j"
      by (simp add: table_nth map2_nth [OF assms] stretched_nth [OF assms(1)]
          stretched_nth [OF assms(2)])
  qed
  then show ?thesis using e by simp
qed

lemma table_self: "shape_is nrow ncol a \<Longrightarrow> table nrow ncol (\<lambda>i j. a ! i ! j) = a"
  by (rule ndarray_eqI [of nrow ncol]) (simp_all add: table_shape table_nth)

lemma map2_table_right:
  assumes "shape_is nrow ncol a"
  shows "map2 (map2 f) a (table nrow ncol g) = table nrow ncol (\<lambda>i j. f (a ! i ! j) (g i j))"
proof (rule ndarray_eqI [of nrow ncol])
  show "shape_is nrow ncol (map2 (map2 f) a (table nrow ncol g))"
    by (rule map2_shape [OF assms table_shape])
  show "shape_is nrow ncol (table nrow ncol (\<lambda>i j. f (a ! i ! j) (g i j)))"
    by (rule table_shape)
  fix i j assume "i < nrow" and "j < ncol"
  then show "map2 (map2 f) a (table nrow ncol g) ! i ! j
      = table nrow ncol (\<lambda>i j. f (a ! i ! j) (g i j)) ! i ! j"
    by (simp add: map2_nth [OF assms table_shape] table_nth)
qed

lemma map2_table_left:
  assumes "shape_is nrow ncol b"
  shows "map2 (map2 f) (table nrow ncol g) b = table nrow ncol (\<lambda>i j. f (g i j) (b ! i ! j))"
proof (rule ndarray_eqI [of nrow ncol])
  show "shape_is nrow ncol (map2 (map2 f) (table nrow ncol g) b)"
    by (rule map2_shape [OF table_shape assms])
  show "shape_is nrow ncol (table nrow ncol (\<lambda>i j. f (g i j) (b ! i ! j)))"
    by (rule table_shape)
  fix i j assume "i < nrow" and "j < ncol"
  then show "map2 (map2 f) (table nrow ncol g) b ! i ! j
      = table nrow ncol (\<lambda>i j. f (g i j) (b ! i ! j)) ! i ! j"
    by (simp add: map2_nth [OF table_shape assms] table_nth)
qed

lemma map2_table_table:
  "map2 (map2 f) (table nrow ncol g) (table nrow ncol h)
     = table nrow ncol (\<lambda>i j. f (g i j) (h i j))"
proof -
  have "table nrow ncol (\<lambda>i j. f (g i j) (table nrow ncol h ! i ! j))
      = table nrow ncol (\<lambda>i j. f (g i j) (h i j))"
    by (rule table_cong) (simp add: table_nth)
  then show ?thesis
    by (simp add: map2_table_left [OF table_shape])
qed

section \<open>The histograms and the loop, cell by cell\<close>

lemma zip3_map: "zip (map f xs) (zip (map g xs) (map h xs)) = map (\<lambda>x. (f x, g x, h x)) xs"
  by (induction xs) simp_all

lemma sum_list_if_filter:
  "sum_list (map (\<lambda>x. if P x then w x else (0::real)) xs) = sum_list (map w (filter P xs))"
  by (induction xs) simp_all

lemma histogram2d_weights:
  assumes "grid_ok nlat nlon bins"
  shows "histogram2d (map LAin (filter iok ps)) (map LOin (filter iok ps)) bins
           (Some (map w (filter iok ps)))
         = Inr (table nlat nlon (\<lambda>i j. cell_total bins w i j ps))"
proof -
  have ne: "fst bins \<noteq> []" "snd bins \<noteq> []"
    using assms by (auto simp: grid_ok_def)
  have "(\<lambda>(xv, yv, wv). if bin_index (fst bins) xv = Some i \<and> bin_index (snd bins) yv = Some j
            then wv else 0) \<circ> (\<lambda>p. (LAin p, LOin p, w p))
        = (\<lambda>p. if in_cell bins i j p then w p else 0)" for i j
    by (auto simp: fun_eq_iff in_cell_def)
  then show ?thesis
    using assms ne
    by (simp add: histogram2d_def grid_ok_def zip3_map cell_total_def sum_list_if_filter)
qed

lemma histogram2d_count:
  assumes "grid_ok nlat nlon bins"
  shows "histogram2d (map LAin (filter iok ps)) (map LOin (filter iok ps)) bins None
         = Inr (table nlat nlon (\<lambda>i j. cell_total bins (\<lambda>p. 1) i j ps))"
proof -
  have "replicate (length (filter iok ps)) (1::real) = map (\<lambda>p. 1) (filter iok ps)"
    by (simp add: map_replicate_const)
  then have "histogram2d (map LAin (filter iok ps)) (map LOin (filter iok ps)) bins None
      = histogram2d (map LAin (filter iok ps)) (map LOin (filter iok ps)) bins
           (Some (map (\<lambda>p. 1) (filter iok ps)))"
    by (simp add: histogram2d_def)
  then show ?thesis using histogram2d_weights [OF assms] by simp
qed

text \<open>
  On a well-formed grid the loop never fails, and each cell of its three results is the
  start value plus the total over the files.
\<close>

lemma regrid_loop_total:
  assumes "grid_ok nlat nlon bins"
    and "shape_is nlat nlon num" and "shape_is nlat nlon red" and "shape_is nlat nlon nir"
  shows "regrid_loop bins (num, red, nir) flist =
     Inr (table nlat nlon (\<lambda>i j. num ! i ! j + files_total bins (\<lambda>p. 1) i j flist),
          table nlat nlon (\<lambda>i j. red ! i ! j + files_total bins redval i j flist),
          table nlat nlon (\<lambda>i j. nir ! i ! j + files_total bins nirval i j flist))"
  using assms(2-4)
proof (induction flist arbitrary: num red nir)
  case Nil
  then show ?case by (simp add: files_total_def table_self)
next
  case (Cons ff flist)
  let ?n = "table nlat nlon (\<lambda>i j. num ! i ! j + cell_total bins (\<lambda>p. 1) i j (snd ff))"
  let ?r = "table nlat nlon (\<lambda>i j. red ! i ! j + cell_total bins redval i j (snd ff))"
  let ?i = "table nlat nlon (\<lambda>i j. nir ! i ! j + cell_total bins nirval i j (snd ff))"
  have step: "regrid_loop bins (num, red, nir) (ff # flist) = regrid_loop bins (?n, ?r, ?i) flist"
    using Cons.prems assms(1)
    by (simp add: histogram2d_count [OF assms(1)] histogram2d_weights [OF assms(1)]
        elementwise_same_shape [of nlat nlon] table_shape map2_table_right Let_def)
  have "regrid_loop bins (?n, ?r, ?i) flist =
     Inr (table nlat nlon (\<lambda>i j. ?n ! i ! j + files_total bins (\<lambda>p. 1) i j flist),
          table nlat nlon (\<lambda>i j. ?r ! i ! j + files_total bins redval i j flist),
          table nlat nlon (\<lambda>i j. ?i ! i ! j + files_total bins nirval i j flist))"
    by (rule Cons.IH) (simp_all add: table_shape)
  also have "table nlat nlon (\<lambda>i j. ?n ! i ! j + files_total bins (\<lambda>p. 1) i j flist)
      = table nlat nlon (\<lambda>i j. num ! i ! j + files_total bins (\<lambda>p. 1) i j (ff # flist))"
    by (rule table_cong) (simp add: table_nth files_total_def)
  also have "table nlat nlon (\<lambda>i j. ?r ! i ! j + files_total bins redval i j flist)
      = table nlat nlon (\<lambda>i j. red ! i ! j + files_total bins redval i j (ff # flist))"
    by (rule table_cong) (simp add: table_nth files_total_def)
  also have "table nlat nlon (\<lambda>i j. ?i ! i ! j + files_total bins nirval i j flist)
      = table nlat nlon (\<lambda>i j. nir ! i ! j + files_total bins nirval i j (ff # flist))"
    by (rule table_cong) (simp add: table_nth files_total_def)
  finally show ?case using step by simp
qed

lemma regrid_loop_zeros:
  assumes "grid_ok nlat nlon bins"
  shows "regrid_loop bins (zeros nlat nlon, zeros nlat nlon, zeros nlat nlon) flist =
     Inr (table nlat nlon (\<lambda>i j. files_total bins (\<lambda>p. 1) i j flist),
          table nlat nlon (\<lambda>i j. files_total bins redval i j flist),
          table nlat nlon (\<lambda>i j. files_total bins nirval i j flist))"
proof -
  have "table nlat nlon (\<lambda>i j. zeros nlat nlon ! i ! j + files_total bins w i j flist)
      = table nlat nlon (\<lambda>i j. files_total bins w i j flist)" for w
    by (rule table_cong) (simp add: zeros_nth)
  then show ?thesis
    using regrid_loop_total [OF assms shape_is_zeros shape_is_zeros shape_is_zeros, of flist]
    by simp
qed

section \<open>What \<^verbatim>\<open>_regrid\<close> returns\<close>

lemma true_divide_ignore:
  assumes "shape_is nrow ncol a" and "shape_is nrow ncol b"
  shows "true_divide \<lparr>divide_mode = Ignore, invalid_mode = Ignore\<rparr> a b
           = Inr (map2 (map2 np_divide) a b, [])"
  by (simp add: true_divide_def elementwise_same_shape [OF assms] Let_def)

lemma ndvi_ratio_tables:
  "ndvi_ratio (table nrow ncol n) (table nrow ncol r)
     = Inr (table nrow ncol (\<lambda>i j. np_divide (Fin (n i j - r i j)) (Fin (n i j + r i j))), [])"
  by (simp add: ndvi_ratio_def map2_table_table
      true_divide_ignore [OF table_shape table_shape])

lemma apply_mask_table:
  assumes "case msk of None \<Rightarrow> True | Some m \<Rightarrow> shape_is nrow ncol m"
  shows "apply_mask (table nrow ncol f) msk
     = Inr (table nrow ncol (\<lambda>i j. masked_cell msk i j (f i j)))"
proof (cases msk)
  case None
  then show ?thesis by (simp add: apply_mask_def masked_cell_def)
next
  case (Some m)
  then have m: "shape_is nrow ncol m" using assms by simp
  show ?thesis
    using Some
    by (simp add: apply_mask_def masked_cell_def elementwise_same_shape [OF table_shape m]
        map2_table_left [OF m])
qed

lemma set_values_table:
  assumes "map_of (data_vars ds) name = Some v" and "shape_is nrow ncol (data v)"
  shows "set_values ds name (table nrow ncol f)
     = Inr (ds\<lparr>data_vars := AList.update name (v\<lparr>data := table nrow ncol f\<rparr>) (data_vars ds)\<rparr>)"
proof -
  have "map length (table nrow ncol f) = map length (data v)"
    using assms(2) table_shape [of nrow ncol f] by (simp add: shape_is_def)
  then show ?thesis using assms(1) by (simp add: set_values_def)
qed

lemma regrid_result:
  assumes "regrid_ready edges dsout msk" and "dirin \<noteq> []"
    and "map_of (data_vars dsout) ''NDVI'' = Some v"
  shows "regrid edges dsout dirin msk
     = (Inr (regrid_output edges dsout dirin msk v), regrid_output edges dsout dirin msk v)"
proof -
  let ?nlat = "length (lat dsout)" and ?nlon = "length (lon dsout)"
  have g: "grid_ok ?nlat ?nlon (edges ?nlat ?nlon)"
    and v: "shape_is ?nlat ?nlon (data v)"
    and m: "case msk of None \<Rightarrow> True | Some m \<Rightarrow> shape_is ?nlat ?nlon m"
    using assms(1,3) by (simp_all add: regrid_ready_def Let_def)
  show ?thesis
    using assms(2)
    by (simp add: regrid_def regrid_output_def Let_def regrid_loop_zeros [OF g]
        ndvi_ratio_tables apply_mask_table [OF m] set_values_table [OF assms(3) v]
        ratio_cell_def)
qed

section \<open>Policy C\<close>

lemma jojo_cell_reference: "jojo_cell x = policy_C_reference x"
  by (cases x) (auto simp: jojo_cell_def np_subtract_def Let_def)

text \<open>
  Claim C1, as amended. The active conversion, \<^verbatim>\<open>_ndvi2fpar_jojo\<close>, is the reference map
  of Policy C applied in every cell, and it is the conversion that \<^verbatim>\<open>VegInd.ndvi2fpar\<close>
  stores as fPAR. On the NDVI sequence \<open>-0.2, 0.10, 0.15, 0.5, 0.75, 0.9\<close> it gives
  \<open>0, 0, 0, 0.4375, 0.75, 0.9\<close>: the fourth value is \<open>(0.5 - 0.15)/(0.75 - 0.15) * 0.75\<close>.
\<close>

theorem C1_policy_C_is_reference_map:
  "ndvi2fpar_jojo ndvi = map (map policy_C_reference) ndvi \<and>
   fst (VegInd_ndvi2fpar self lctype) =
     (case get_values self ''NDVI'' of
        Inl e \<Rightarrow> Inl e
      | Inr ndvi \<Rightarrow>
          assign self ''fPAR''
            \<lparr>dims = [''lat'', ''lon''], data = map (map policy_C_reference) ndvi,
             var_attrs = [(''long_name'',
                 ''Fraction (absorbed) Photosynthetically Available '' @
                 ''Radiation (fPAR)''), (''units'', ''1'')]\<rparr>) \<and>
   ndvi2fpar_jojo [[Fin (- 0.2), Fin 0.10, Fin 0.15, Fin 0.5, Fin 0.75, Fin 0.9]]
     = [[Fin 0, Fin 0, Fin 0, Fin 0.4375, Fin 0.75, Fin 0.9]]"
proof (intro conjI)
  show jojo: "ndvi2fpar_jojo ndvi = map (map policy_C_reference) ndvi" for ndvi
    by (simp add: ndvi2fpar_jojo_def jojo_cell_reference)
  show "fst (VegInd_ndvi2fpar self lctype) =
     (case get_values self ''NDVI'' of
        Inl e \<Rightarrow> Inl e
      | Inr ndvi \<Rightarrow>
          assign self ''fPAR''
            \<lparr>dims = [''lat'', ''lon''], data = map (map policy_C_reference) ndvi,
             var_attrs = [(''long_name'',
                 ''Fraction (absorbed) Photosynthetically Available '' @
                 ''Radiation (fPAR)''), (''units'', ''1'')]\<rparr>)"
    by (simp add: VegInd_ndvi2fpar_def jojo Let_def split: sum.split)
  show "ndvi2fpar_jojo [[Fin (- 0.2), Fin 0.10, Fin 0.15, Fin 0.5, Fin 0.75, Fin 0.9]]
     = [[Fin 0, Fin 0, Fin 0, Fin 0.4375, Fin 0.75, Fin 0.9]]"
    by (simp add: jojo)
qed

text \<open>
  The sequence that claim C1 states does not come out: at NDVI \<open>0.5\<close> the conversion
  gives \<open>0.4375\<close>, which is not within \<open>10\<^sup>-\<^sup>6\<close> of \<open>0.4667\<close>.
\<close>

theorem C1_stated_sequence_counterexample:
  "\<not> list_all2 (list_all2 (within_tolerance (1 / 1000000)))
       (ndvi2fpar_jojo [[Fin (- 0.2), Fin 0.10, Fin 0.15, Fin 0.5, Fin 0.75, Fin 0.9]])
       [[0, 0, 0, 0.4667, 0.75, 0.9]]"
  by (simp add: ndvi2fpar_jojo_def jojo_cell_reference)

section \<open>No input files\<close>

text \<open>
  Claim C4. When \<^verbatim>\<open>glob\<close> finds no granule file, \<^verbatim>\<open>_regrid\<close> and the method
  \<^verbatim>\<open>VegInd.regrid\<close> raise \<^verbatim>\<open>EOFError('no files to open')\<close>, the error that the
  specification calls \<open>NoInputDataError\<close>, whatever the grid, the dataset and the mask are,
  and they leave the output dataset as it was.
\<close>

theorem C4_no_files_is_fatal:
  "regrid edges dsout [] msk = (Inl (EOFError ''no files to open''), dsout) \<and>
   VegInd_regrid edges dsout [] msk = (Inl (EOFError ''no files to open''), dsout)"
  by (simp add: VegInd_regrid_def regrid_def)

section \<open>Cells without coverage\<close>

lemma sum_list_ones: "sum_list (map (\<lambda>x. 1::real) xs) = real (length xs)"
  by (induction xs) simp_all

lemma cell_total_count: "cell_total bins (\<lambda>p. 1) i j ps
    = real (length (filter (in_cell bins i j) (filter iok ps)))"
  by (simp add: cell_total_def sum_list_ones)

lemma cell_total_no_pixel:
  "cell_total bins (\<lambda>p. 1) i j ps = 0 \<Longrightarrow> cell_total bins w i j ps = 0"
  by (simp add: cell_total_count) (simp add: cell_total_def)

lemma files_total_no_pixel:
  assumes "files_total bins (\<lambda>p. 1) i j flist = 0"
  shows "files_total bins w i j flist = 0"
proof -
  have "\<forall>x \<in> set (map (\<lambda>ff. cell_total bins (\<lambda>p. 1) i j (snd ff)) flist). x = 0"
    using assms unfolding files_total_def
    by (subst (asm) sum_list_nonneg_eq_0_iff) (auto simp: cell_total_count)
  then have "\<forall>ff \<in> set flist. cell_total bins w i j (snd ff) = 0"
    by (auto intro: cell_total_no_pixel)
  then show ?thesis
    unfolding files_total_def by (induction flist) simp_all
qed

lemma ratio_cell_no_pixel:
  "files_total bins (\<lambda>p. 1) i j flist = 0 \<Longrightarrow> ratio_cell bins flist i j = NaN"
  by (simp add: ratio_cell_def files_total_no_pixel)

lemma masked_cell_NaN: "masked_cell msk i j NaN = NaN"
  by (simp add: masked_cell_def blend_cell_def np_subtract_def split: option.split)

lemma jojo_cell_NaN: "jojo_cell NaN = Fin 0"
  by (simp add: jojo_cell_def)

lemma lin_cell_NaN: "lin_cell NaN = Fin 0"
  by (simp add: lin_cell_def np_subtract_def)

lemma los_cell_NaN: "los_cell nn NaN = NaN"
  by (simp add: los_cell_def np_subtract_def srfun_def Let_def)

lemma map2_over_zip:
  "map2 h (map2 k xs ys) (zip xs ys) = map2 (\<lambda>x y. h (k x y) (x, y)) xs ys"
proof (induction xs arbitrary: ys)
  case Nil
  then show ?case by simp
next
  case (Cons x xs)
  then show ?case by (cases ys) simp_all
qed

lemma los_step_map2:
  "los_step ndvi lctype (map2 (map2 g) ndvi lctype) nn
     = map2 (map2 (\<lambda>x l. if l = int nn then los_cell nn x else g x l)) ndvi lctype"
proof -
  have row: "map2 (\<lambda>f (x, l). if l = int nn then los_cell nn x else f) (map2 g nrow lrow)
               (zip nrow lrow)
      = map2 (\<lambda>x l. if l = int nn then los_cell nn x else g x l) nrow lrow" for nrow lrow
    by (simp add: map2_over_zip)
  show ?thesis
    unfolding los_step_def
    by (simp add: map2_over_zip row)
qed

lemma map2_const:
  "length ys = length xs \<Longrightarrow> map2 (\<lambda>x y. c) xs ys = map (\<lambda>x. c) xs"
  by (induction xs ys rule: list_induct2') simp_all

lemma map2_map2_const:
  "map length b = map length a \<Longrightarrow> map2 (map2 (\<lambda>x y. c)) a b = map (map (\<lambda>x. c)) a"
proof (induction a b rule: list_induct2')
  case (4 x xs y ys)
  from "4.prems" have len: "length y = length x" and rest: "map length ys = map length xs"
    by simp_all
  have "map2 (map2 (\<lambda>x y. c)) (x # xs) (y # ys)
      = map2 (\<lambda>x y. c) x y # map2 (map2 (\<lambda>x y. c)) xs ys"
    by (simp only: zip_Cons_Cons list.map prod.case)
  also have "\<dots> = map (\<lambda>x. c) x # map (map (\<lambda>x. c)) xs"
    by (simp only: map2_const [OF len] "4.IH" [OF rest])
  finally show ?case by (simp only: list.map)
qed simp_all

lemma los_loop:
  assumes "map length lctype = map length ndvi"
  shows "foldl (los_step ndvi lctype) (map (map (\<lambda>x. Fin 0)) ndvi) [0..<n]
     = map2 (map2 (\<lambda>x l. if 0 \<le> l \<and> l < int n then los_cell (nat l) x else Fin 0)) ndvi lctype"
proof (induction n)
  case 0
  have "(\<lambda>x l. if 0 \<le> l \<and> l < int 0 then los_cell (nat l) x else Fin 0) = (\<lambda>x l. Fin 0)"
    by (auto simp: fun_eq_iff)
  then have "map2 (map2 (\<lambda>x l. if 0 \<le> l \<and> l < int 0 then los_cell (nat l) x else Fin 0))
               ndvi lctype = map (map (\<lambda>x. Fin 0)) ndvi"
    using map2_map2_const [OF assms, of "Fin 0"] by simp
  then show ?case by simp
next
  case (Suc n)
  have eq: "(\<lambda>x l. if l = int n then los_cell n x
                else if 0 \<le> l \<and> l < int n then los_cell (nat l) x else Fin 0)
      = (\<lambda>x l. if 0 \<le> l \<and> l < int (Suc n) then los_cell (nat l) x else Fin 0)"
    by (auto simp: fun_eq_iff)
  have "foldl (los_step ndvi lctype) (map (map (\<lambda>x. Fin 0)) ndvi) [0..<Suc n]
      = los_step ndvi lctype
          (map2 (map2 (\<lambda>x l. if 0 \<le> l \<and> l < int n then los_cell (nat l) x else Fin 0))
             ndvi lctype) n"
    using Suc by simp
  also have "\<dots> = map2 (map2 (\<lambda>x l. if l = int n then los_cell n x
                else if 0 \<le> l \<and> l < int n then los_cell (nat l) x else Fin 0)) ndvi lctype"
    by (rule los_step_map2)
  finally show ?case unfolding eq .
qed

lemma map_map2_map2:
  "map (map h) (map2 (map2 g) a b) = map2 (map2 (\<lambda>x y. h (g x y))) a b"
proof (induction a arbitrary: b)
  case Nil
  then show ?case by simp
next
  case (Cons r a)
  have row: "map h (map2 g r s) = map2 (\<lambda>x y. h (g x y)) r s" for s
    by (simp add: comp_def case_prod_beta)
  show ?case
  proof (cases b)
    case Nil
    then show ?thesis by simp
  next
    case (Cons s b')
    have "map (map h) (map2 (map2 g) (r # a) (s # b'))
        = map h (map2 g r s) # map (map h) (map2 (map2 g) a b')"
      by simp
    also have "\<dots> = map2 (\<lambda>x y. h (g x y)) r s # map2 (map2 (\<lambda>x y. h (g x y))) a b'"
      unfolding row Cons.IH ..
    also have "\<dots> = map2 (map2 (\<lambda>x y. h (g x y))) (r # a) (s # b')"
      by simp
    finally show ?thesis using Cons by simp
  qed
qed

lemma ndvi2fpar_los_cells:
  assumes "map length lctype = map length ndvi"
  shows "ndvi2fpar_los ndvi lctype = Inr (map2 (map2 los_final) ndvi lctype)"
proof -
  have eq: "(\<lambda>x l. if np_isnan (if 0 \<le> l \<and> l < int NTYPE then los_cell (nat l) x else Fin 0)
               then Fin 0
               else (if 0 \<le> l \<and> l < int NTYPE then los_cell (nat l) x else Fin 0))
      = los_final"
    by (simp add: fun_eq_iff los_final_def Let_def)
  have "ndvi2fpar_los ndvi lctype
      = Inr (map (map (\<lambda>f. if np_isnan f then Fin 0 else f))
          (map2 (map2 (\<lambda>x l. if 0 \<le> l \<and> l < int NTYPE then los_cell (nat l) x else Fin 0))
             ndvi lctype))"
    using assms unfolding ndvi2fpar_los_def los_loop [OF assms] by simp
  then show ?thesis
    unfolding map_map2_map2 eq .
qed

lemma map2_map2_nth:
  assumes "map length b = map length a" and "i < length a" and "j < length (a ! i)"
  shows "map2 (map2 f) a b ! i ! j = f (a ! i ! j) (b ! i ! j)"
proof -
  have lb: "length b = length a"
    using assms(1) by (metis length_map)
  have "length (b ! i) = length (a ! i)"
    using assms(1,2) lb by (metis nth_map)
  then show ?thesis using assms(2,3) lb by simp
qed

lemma los_final_NaN: "los_final NaN l = Fin 0"
  by (simp add: los_final_def los_cell_NaN)

lemma get_values_regrid_output:
  "get_values (regrid_output edges dsout dirin msk v) ''NDVI''
     = Inr (table (length (lat dsout)) (length (lon dsout))
         (\<lambda>i j. masked_cell msk i j
            (ratio_cell (edges (length (lat dsout)) (length (lon dsout))) dirin i j)))"
  by (simp add: get_values_def regrid_output_def Let_def update_conv')

text \<open>
  Claim C2. A cell that no eligible pixel of any file falls into has the count zero. The
  guarded division then gives \<^verbatim>\<open>nan\<close> in that cell, without an exception and without a
  diagnostic; \<^verbatim>\<open>_regrid\<close> stores \<^verbatim>\<open>nan\<close> there as NDVI, with or without a mask; and each
  of the three conversions gives fPAR zero in that cell.
\<close>

theorem C2_no_coverage_gives_zero_fpar:
  assumes "regrid_ready edges dsout msk" and "dirin \<noteq> []"
    and "regrid_loop (edges (length (lat dsout)) (length (lon dsout)))
           (zeros (length (lat dsout)) (length (lon dsout)),
            zeros (length (lat dsout)) (length (lon dsout)),
            zeros (length (lat dsout)) (length (lon dsout))) dirin = Inr (num, red, nir)"
    and "i < length (lat dsout)" and "j < length (lon dsout)"
    and "num ! i ! j = 0"
  shows "\<exists>q ds ndvi.
      ndvi_ratio nir red = Inr (q, []) \<and> q ! i ! j = NaN \<and>
      regrid edges dsout dirin msk = (Inr ds, ds) \<and>
      get_values ds ''NDVI'' = Inr ndvi \<and> ndvi ! i ! j = NaN \<and>
      ndvi2fpar_jojo ndvi ! i ! j = Fin 0 \<and>
      ndvi2fpar_lin ndvi ! i ! j = Fin 0 \<and>
      (\<forall>lctype. shape_is (length (lat dsout)) (length (lon dsout)) lctype \<longrightarrow>
         (\<exists>fpar. ndvi2fpar_los ndvi lctype = Inr fpar \<and> fpar ! i ! j = Fin 0))"
proof -
  let ?nlat = "length (lat dsout)" and ?nlon = "length (lon dsout)"
  let ?bins = "edges ?nlat ?nlon"
  let ?q = "table ?nlat ?nlon (\<lambda>i j. ratio_cell ?bins dirin i j)"
  let ?ndvi = "table ?nlat ?nlon (\<lambda>i j. masked_cell msk i j (ratio_cell ?bins dirin i j))"
  obtain v where v: "map_of (data_vars dsout) ''NDVI'' = Some v"
    using assms(1) by (auto simp: regrid_ready_def Let_def split: option.splits)
  let ?ds = "regrid_output edges dsout dirin msk v"
  have g: "grid_ok ?nlat ?nlon ?bins"
    using assms(1) by (simp add: regrid_ready_def Let_def)
  have acc: "num = table ?nlat ?nlon (\<lambda>i j. files_total ?bins (\<lambda>p. 1) i j dirin)"
       "red = table ?nlat ?nlon (\<lambda>i j. files_total ?bins redval i j dirin)"
       "nir = table ?nlat ?nlon (\<lambda>i j. files_total ?bins nirval i j dirin)"
    using assms(3) by (simp_all add: regrid_loop_zeros [OF g])
  have "files_total ?bins (\<lambda>p. 1) i j dirin = 0"
    using assms(4-6) by (simp add: acc table_nth)
  then have nan: "ratio_cell ?bins dirin i j = NaN"
    by (rule ratio_cell_no_pixel)
  have 1: "ndvi_ratio nir red = Inr (?q, [])"
    by (simp add: acc ndvi_ratio_tables ratio_cell_def)
  have 2: "?q ! i ! j = NaN"
    using assms(4,5) by (simp add: table_nth nan)
  have 3: "regrid edges dsout dirin msk = (Inr ?ds, ?ds)"
    by (rule regrid_result [OF assms(1,2) v])
  have 4: "get_values ?ds ''NDVI'' = Inr ?ndvi"
    by (rule get_values_regrid_output)
  have sh: "shape_is ?nlat ?nlon ?ndvi"
    by (rule table_shape)
  have len: "i < length ?ndvi" "j < length (?ndvi ! i)"
    using assms(4,5) sh by (simp_all add: shape_is_length shape_is_row)
  have 5: "?ndvi ! i ! j = NaN"
    using assms(4,5) by (simp add: table_nth nan masked_cell_NaN)
  have 6: "ndvi2fpar_jojo ?ndvi ! i ! j = Fin 0"
    using len 5 by (simp add: ndvi2fpar_jojo_def jojo_cell_NaN)
  have 7: "ndvi2fpar_lin ?ndvi ! i ! j = Fin 0"
    using len 5 by (simp add: ndvi2fpar_lin_def lin_cell_NaN)
  have 8: "\<exists>fpar. ndvi2fpar_los ?ndvi lctype = Inr fpar \<and> fpar ! i ! j = Fin 0"
    if "shape_is ?nlat ?nlon lctype" for lctype
  proof -
    have eq: "map length lctype = map length ?ndvi"
      using that sh by (simp add: shape_is_def)
    have "map2 (map2 los_final) ?ndvi lctype ! i ! j = los_final (?ndvi ! i ! j) (lctype ! i ! j)"
      by (rule map2_map2_nth [OF eq len])
    then show ?thesis
      by (simp add: ndvi2fpar_los_cells [OF eq] 5 los_final_NaN)
  qed
  from 1 2 3 4 5 6 7 8 show ?thesis by blast
qed

text \<open>
  One pixel in the first of two cells: the second cell has no coverage.
\<close>

theorem C2_no_coverage_witness:
  "\<exists>q ds ndvi.
      ndvi_ratio [[300, 0]] [[100, 0]] = Inr (q, []) \<and> q ! 0 ! 1 = NaN \<and>
      regrid unit_edges (sample_dataset 1 2) [(''/in/a.hdf'', [pixel_at 0.5 0.5 100 300])] None
        = (Inr ds, ds) \<and>
      get_values ds ''NDVI'' = Inr ndvi \<and> ndvi ! 0 ! 1 = NaN \<and>
      ndvi2fpar_jojo ndvi ! 0 ! 1 = Fin 0 \<and>
      ndvi2fpar_lin ndvi ! 0 ! 1 = Fin 0 \<and>
      (\<exists>fpar. ndvi2fpar_los ndvi [[3, 7]] = Inr fpar \<and> fpar ! 0 ! 1 = Fin 0)"
proof -
  let ?ds = "sample_dataset 1 2"
  let ?dir = "[(''/in/a.hdf'', [pixel_at 0.5 0.5 100 300])]"
  have nlat: "length (lat ?ds) = 1" and nlon: "length (lon ?ds) = 2"
    by code_simp+
  have ready: "regrid_ready unit_edges ?ds None"
    by code_simp
  have loop: "regrid_loop (unit_edges 1 2) (zeros 1 2, zeros 1 2, zeros 1 2) ?dir
      = Inr ([[1, 0]], [[100, 0]], [[300, 0]])"
    by code_simp
  have sh: "shape_is 1 2 [[3, 7 :: int]]"
    by code_simp
  show ?thesis
    using C2_no_coverage_gives_zero_fpar [of unit_edges ?ds None ?dir
        "[[1, 0]]" "[[100, 0]]" "[[300, 0]]" 0 1] ready loop sh
    unfolding nlat nlon by fastforce
qed

section \<open>The order of the files\<close>

lemma files_total_mset:
  assumes "mset flist' = mset flist"
  shows "files_total bins w i j flist' = files_total bins w i j flist"
proof -
  have "sum_list (map f xs) = sum_mset (image_mset f (mset xs))" for f :: "string \<times> granule \<Rightarrow> real" and xs
    by (metis mset_map sum_mset_sum_list)
  then show ?thesis
    unfolding files_total_def using assms by simp
qed

lemma files_total_split:
  assumes "mset A + mset B = mset flist"
  shows "files_total bins w i j flist = files_total bins w i j A + files_total bins w i j B"
proof -
  have "mset flist = mset (A @ B)" using assms by simp
  then have "files_total bins w i j flist = files_total bins w i j (A @ B)"
    by (rule files_total_mset)
  then show ?thesis by (simp add: files_total_def)
qed

lemma elementwise_tables:
  "elementwise f (table nrow ncol g) (table nrow ncol h)
     = Inr (table nrow ncol (\<lambda>i j. f (g i j) (h i j)))"
  by (simp add: elementwise_same_shape [OF table_shape table_shape] map2_table_table)

text \<open>
  Claim C3. On a well-formed grid the loop over the files returns the three accumulated
  arrays, and they depend only on which files are processed, not on their order: split
  the files in any way into two lists, run the loop on each from zero, and the
  element-wise sums of the two partial results are the result for the whole list; any
  rearrangement of the list gives the same three arrays, and so \<^verbatim>\<open>_regrid\<close> stores the
  same data variables. The arithmetic of the model is exact, which is what the
  specification assumes of the sums; the summands are counts and 16-bit integers,
  whose sums double precision holds exactly.
\<close>

theorem C3_accumulation_is_order_independent:
  assumes "grid_ok nlat nlon bins"
    and "mset A + mset B = mset flist"
  shows "\<exists>whole a b.
      regrid_loop bins (zeros nlat nlon, zeros nlat nlon, zeros nlat nlon) flist = Inr whole \<and>
      regrid_loop bins (zeros nlat nlon, zeros nlat nlon, zeros nlat nlon) A = Inr a \<and>
      regrid_loop bins (zeros nlat nlon, zeros nlat nlon, zeros nlat nlon) B = Inr b \<and>
      merge a b = Inr whole \<and>
      (\<forall>flist'. mset flist' = mset flist \<longrightarrow>
         regrid_loop bins (zeros nlat nlon, zeros nlat nlon, zeros nlat nlon) flist' = Inr whole \<and>
         (\<forall>edges dsout msk.
            length (lat dsout) = nlat \<and> length (lon dsout) = nlon \<and> edges nlat nlon = bins \<longrightarrow>
            map_sum id data_vars (fst (regrid edges dsout flist' msk))
              = map_sum id data_vars (fst (regrid edges dsout flist msk))))"
proof -
  let ?Z = "(zeros nlat nlon, zeros nlat nlon, zeros nlat nlon)"
  let ?acc = "\<lambda>fs. (table nlat nlon (\<lambda>i j. files_total bins (\<lambda>p. 1) i j fs),
                   table nlat nlon (\<lambda>i j. files_total bins redval i j fs),
                   table nlat nlon (\<lambda>i j. files_total bins nirval i j fs))"
  have loop: "regrid_loop bins ?Z fs = Inr (?acc fs)" for fs
    by (rule regrid_loop_zeros [OF assms(1)])
  have split: "table nlat nlon (\<lambda>i j. files_total bins w i j A + files_total bins w i j B)
      = table nlat nlon (\<lambda>i j. files_total bins w i j flist)" for w
    by (rule table_cong) (simp add: files_total_split [OF assms(2)])
  have m: "merge (?acc A) (?acc B) = Inr (?acc flist)"
    by (simp add: merge_def elementwise_tables split)
  have perm: "regrid_loop bins ?Z flist' = Inr (?acc flist)" if "mset flist' = mset flist" for flist'
  proof -
    have "files_total bins w i j flist' = files_total bins w i j flist" for w i j
      by (rule files_total_mset [OF that])
    then show ?thesis by (simp add: loop)
  qed
  have out: "map_sum id data_vars (fst (regrid edges dsout flist' msk))
              = map_sum id data_vars (fst (regrid edges dsout flist msk))"
    if "mset flist' = mset flist"
      and "length (lat dsout) = nlat \<and> length (lon dsout) = nlon \<and> edges nlat nlon = bins"
    for flist' edges dsout msk
  proof -
    have e: "(flist' = []) = (flist = [])"
      using that(1) by (metis mset_zero_iff)
    show ?thesis
      using that(2) e
      by (simp add: regrid_def Let_def perm [OF that(1)] loop [of flist]
          split: sum.splits prod.splits)
  qed
  from loop m perm out show ?thesis by blast
qed

text \<open>
  Two files on a grid of one row and two columns, processed in both orders and merged
  from the two halves.
\<close>

theorem C3_accumulation_witness:
  "\<exists>whole a b.
      regrid_loop (unit_edges 1 2) (zeros 1 2, zeros 1 2, zeros 1 2)
        [(''/in/b.hdf'', [pixel_at 0.5 1.5 200 400, pixel_at 0.2 0.3 50 70]),
         (''/in/a.hdf'', [pixel_at 0.5 0.5 100 300])] = Inr whole \<and>
      regrid_loop (unit_edges 1 2) (zeros 1 2, zeros 1 2, zeros 1 2)
        [(''/in/a.hdf'', [pixel_at 0.5 0.5 100 300])] = Inr a \<and>
      regrid_loop (unit_edges 1 2) (zeros 1 2, zeros 1 2, zeros 1 2)
        [(''/in/b.hdf'', [pixel_at 0.5 1.5 200 400, pixel_at 0.2 0.3 50 70])] = Inr b \<and>
      merge a b = Inr whole \<and>
      regrid_loop (unit_edges 1 2) (zeros 1 2, zeros 1 2, zeros 1 2)
        [(''/in/a.hdf'', [pixel_at 0.5 0.5 100 300]),
         (''/in/b.hdf'', [pixel_at 0.5 1.5 200 400, pixel_at 0.2 0.3 50 70])] = Inr whole \<and>
      whole = ([[2, 1]], [[150, 200]], [[370, 400]])"
proof -
  let ?fa = "(''/in/a.hdf'', [pixel_at 0.5 0.5 100 300])"
  let ?fb = "(''/in/b.hdf'', [pixel_at 0.5 1.5 200 400, pixel_at 0.2 0.3 50 70])"
  have g: "grid_ok 1 2 (unit_edges 1 2)"
    by code_simp
  have m: "mset [?fa] + mset [?fb] = mset [?fb, ?fa]"
    by simp
  have m': "mset [?fa, ?fb] = mset [?fb, ?fa]"
    by simp
  have v: "regrid_loop (unit_edges 1 2) (zeros 1 2, zeros 1 2, zeros 1 2) [?fb, ?fa]
      = Inr ([[2, 1]], [[150, 200]], [[370, 400]])"
    by code_simp
  from C3_accumulation_is_order_independent [OF g m] m' v show ?thesis
    by (metis Inr_inject)
qed

section \<open>The mask blend\<close>

lemma blend_cell_one: "blend_cell x (Fin 1) = x"
  by (cases x) (simp_all add: blend_cell_def np_subtract_def)

lemma blend_cell_zero:
  "blend_cell x (Fin 0) = (case x of Fin v \<Rightarrow> Fin NDVIMIN | _ \<Rightarrow> NaN)"
  by (cases x) (simp_all add: blend_cell_def np_subtract_def)

lemma regrid_ready_no_mask: "regrid_ready edges dsout msk \<Longrightarrow> regrid_ready edges dsout None"
  by (simp add: regrid_ready_def Let_def)


lemma blend_cell_exact: "blend_cell_rounded (\<lambda>x. x) x m = blend_cell x m"
proof -
  have "round_fl (\<lambda>x. x) y = y" for y
    by (cases y) simp_all
  then show ?thesis
    by (simp add: blend_cell_rounded_def blend_cell_def)
qed

lemma blend_one_rounded:
  assumes H: "\<And>x. \<bar>rnd x - x\<bar> \<le> \<bar>x\<bar> / 10000000"
    and v: "- 1 \<le> v" "v \<le> 1"
  shows "within_tolerance (1 / 1000000) (blend_cell_rounded rnd (Fin v) (Fin 1)) v"
proof -
  define a where "a = v + 3 / 10"
  define r1 where "r1 = rnd a"
  define r2 where "r2 = rnd r1"
  define b where "b = r2 - 3 / 10"
  define r3 where "r3 = rnd b"
  have blend: "blend_cell_rounded rnd (Fin v) (Fin 1) = Fin r3"
    by (simp add: blend_cell_rounded_def np_subtract_def NDVIMIN_def
        a_def r1_def r2_def b_def r3_def)
  have a: "\<bar>a\<bar> \<le> 13 / 10"
    using v unfolding a_def by linarith
  have 1: "\<bar>r1 - a\<bar> \<le> 13 / 100000000"
    using H [of a] a unfolding r1_def by linarith
  have r1: "\<bar>r1\<bar> \<le> 14 / 10"
    using 1 a by linarith
  have 2: "\<bar>r2 - r1\<bar> \<le> 14 / 100000000"
    using H [of r1] r1 unfolding r2_def by linarith
  have bv: "\<bar>b - v\<bar> \<le> 27 / 100000000"
    using 1 2 unfolding b_def a_def by linarith
  have b: "\<bar>b\<bar> \<le> 11 / 10"
    using bv v by linarith
  have 3: "\<bar>r3 - b\<bar> \<le> 11 / 100000000"
    using H [of b] b unfolding r3_def by linarith
  have "\<bar>r3 - v\<bar> \<le> 1 / 1000000"
    using 3 bv by linarith
  then show ?thesis by (simp add: blend)
qed

text \<open>
  Claim C5, as amended. With a mask of the shape of the grid, each cell of the stored
  NDVI is \<open>(ndvi - NDVIMIN) * mask + NDVIMIN\<close> of the cell without mask. Where the mask is
  one, a cell whose NDVI is defined agrees with the cell without mask within the
  tolerance \<open>10\<^sup>-\<^sup>6\<close>, and an undefined cell stays undefined. Where the mask is zero, a
  cell whose NDVI is defined is \<open>NDVIMIN\<close>, and an undefined cell stays undefined. The
  agreement under a mask of one does not rest on exact arithmetic: for every NDVI from
  \<open>-1\<close> to \<open>1\<close> it holds whenever each of the three operations is rounded with a relative
  error of at most \<open>10\<^sup>-\<^sup>7\<close>, as single and double precision do.
\<close>

theorem C5_mask_blending:
  assumes "regrid_ready edges dsout (Some m)" and "dirin \<noteq> []"
  shows "\<exists>plain ndvi0 ds ndvi.
      regrid edges dsout dirin None = (Inr plain, plain) \<and>
      get_values plain ''NDVI'' = Inr ndvi0 \<and>
      regrid edges dsout dirin (Some m) = (Inr ds, ds) \<and> get_values ds ''NDVI'' = Inr ndvi \<and>
      (\<forall>i j. i < length (lat dsout) \<and> j < length (lon dsout) \<longrightarrow>
         ndvi ! i ! j =
           np_add (np_multiply (np_subtract (ndvi0 ! i ! j) (Fin NDVIMIN)) (m ! i ! j))
             (Fin NDVIMIN) \<and>
         (m ! i ! j = Fin 1 \<longrightarrow>
            (\<forall>v. ndvi0 ! i ! j = Fin v \<longrightarrow> within_tolerance (1 / 1000000) (ndvi ! i ! j) v) \<and>
            (np_isnan (ndvi0 ! i ! j) \<longrightarrow> np_isnan (ndvi ! i ! j))) \<and>
         (m ! i ! j = Fin 0 \<longrightarrow>
            (\<forall>v. ndvi0 ! i ! j = Fin v \<longrightarrow> ndvi ! i ! j = Fin NDVIMIN) \<and>
            (np_isnan (ndvi0 ! i ! j) \<longrightarrow> np_isnan (ndvi ! i ! j)))) \<and>
      (\<forall>rnd v. (\<forall>x. \<bar>rnd x - x\<bar> \<le> \<bar>x\<bar> / 10000000) \<and> - 1 \<le> v \<and> v \<le> 1 \<longrightarrow>
         within_tolerance (1 / 1000000) (blend_cell_rounded rnd (Fin v) (Fin 1)) v)"
proof -
  let ?nlat = "length (lat dsout)" and ?nlon = "length (lon dsout)"
  let ?bins = "edges ?nlat ?nlon"
  obtain v where v: "map_of (data_vars dsout) ''NDVI'' = Some v"
    using assms(1) by (auto simp: regrid_ready_def Let_def split: option.splits)
  let ?plain = "regrid_output edges dsout dirin None v"
  let ?ds = "regrid_output edges dsout dirin (Some m) v"
  let ?ratio = "table ?nlat ?nlon (\<lambda>i j. masked_cell None i j (ratio_cell ?bins dirin i j))"
  let ?ndvi = "table ?nlat ?nlon (\<lambda>i j. masked_cell (Some m) i j (ratio_cell ?bins dirin i j))"
  have 1: "regrid edges dsout dirin None = (Inr ?plain, ?plain)"
    by (rule regrid_result [OF regrid_ready_no_mask [OF assms(1)] assms(2) v])
  have 2: "get_values ?plain ''NDVI'' = Inr ?ratio"
    by (rule get_values_regrid_output)
  have 3: "regrid edges dsout dirin (Some m) = (Inr ?ds, ?ds)"
    by (rule regrid_result [OF assms(1,2) v])
  have 4: "get_values ?ds ''NDVI'' = Inr ?ndvi"
    by (rule get_values_regrid_output)
  have cell: "?ndvi ! i ! j = blend_cell (?ratio ! i ! j) (m ! i ! j)"
    if "i < ?nlat \<and> j < ?nlon" for i j
    using that by (simp add: table_nth masked_cell_def)
  have 5: "?ndvi ! i ! j =
           np_add (np_multiply (np_subtract (?ratio ! i ! j) (Fin NDVIMIN)) (m ! i ! j))
             (Fin NDVIMIN) \<and>
         (m ! i ! j = Fin 1 \<longrightarrow>
            (\<forall>v. ?ratio ! i ! j = Fin v \<longrightarrow> within_tolerance (1 / 1000000) (?ndvi ! i ! j) v) \<and>
            (np_isnan (?ratio ! i ! j) \<longrightarrow> np_isnan (?ndvi ! i ! j))) \<and>
         (m ! i ! j = Fin 0 \<longrightarrow>
            (\<forall>v. ?ratio ! i ! j = Fin v \<longrightarrow> ?ndvi ! i ! j = Fin NDVIMIN) \<and>
            (np_isnan (?ratio ! i ! j) \<longrightarrow> np_isnan (?ndvi ! i ! j)))"
    if "i < ?nlat \<and> j < ?nlon" for i j
  proof (intro conjI impI allI)
    show "?ndvi ! i ! j =
           np_add (np_multiply (np_subtract (?ratio ! i ! j) (Fin NDVIMIN)) (m ! i ! j))
             (Fin NDVIMIN)"
      unfolding cell [OF that] by (simp add: blend_cell_def)
  next
    fix v assume "m ! i ! j = Fin 1" and "?ratio ! i ! j = Fin v"
    then show "within_tolerance (1 / 1000000) (?ndvi ! i ! j) v"
      unfolding cell [OF that] by (simp add: blend_cell_one)
  next
    assume "m ! i ! j = Fin 1" and "np_isnan (?ratio ! i ! j)"
    then show "np_isnan (?ndvi ! i ! j)"
      unfolding cell [OF that] by (simp add: blend_cell_one)
  next
    fix v assume "m ! i ! j = Fin 0" and "?ratio ! i ! j = Fin v"
    then show "?ndvi ! i ! j = Fin NDVIMIN"
      unfolding cell [OF that] by (simp add: blend_cell_zero)
  next
    assume "m ! i ! j = Fin 0" and n: "np_isnan (?ratio ! i ! j)"
    from n have "?ratio ! i ! j = NaN"
      by (cases "?ratio ! i ! j") simp_all
    with \<open>m ! i ! j = Fin 0\<close> show "np_isnan (?ndvi ! i ! j)"
      unfolding cell [OF that] by (simp add: blend_cell_zero)
  qed
  have 6: "within_tolerance (1 / 1000000) (blend_cell_rounded rnd (Fin v) (Fin 1)) v"
    if "(\<forall>x. \<bar>rnd x - x\<bar> \<le> \<bar>x\<bar> / 10000000) \<and> - 1 \<le> v \<and> v \<le> 1" for rnd v
    using that by (intro blend_one_rounded) simp_all
  from 1 2 3 4 5 6 show ?thesis by blast
qed

text \<open>
  Claim C5 as stated fails for a mask of zeros: the cell that no pixel falls into stays
  \<^verbatim>\<open>nan\<close>, since \<^verbatim>\<open>nan * 0\<close> is \<^verbatim>\<open>nan\<close>.
\<close>

theorem C5_zero_mask_counterexample:
  "get_values
     (snd (regrid unit_edges (sample_dataset 1 2)
        [(''/in/a.hdf'', [pixel_at 0.5 0.5 100 300])] (Some [[Fin 0, Fin 0]]))) ''NDVI''
     = Inr [[Fin NDVIMIN, NaN]] \<and>
   [[Fin NDVIMIN, NaN]] ! 0 ! 1 \<noteq> Fin NDVIMIN"
  by code_simp

text \<open>
  Three cells, the first two covered and the third empty, under a mask that is one in
  the first cell and zero in the others; and a rounding that is off by one part in
  \<open>10\<^sup>8\<close>.
\<close>

theorem C5_mask_blending_witness:
  "\<exists>plain ndvi0 ds ndvi.
      regrid unit_edges (sample_dataset 1 3)
        [(''/in/a.hdf'', [pixel_at 0.5 0.5 100 300, pixel_at 0.5 1.5 200 400])] None
        = (Inr plain, plain) \<and>
      get_values plain ''NDVI'' = Inr ndvi0 \<and>
      ndvi0 = [[Fin (1 / 2), Fin (1 / 3), NaN]] \<and>
      regrid unit_edges (sample_dataset 1 3)
        [(''/in/a.hdf'', [pixel_at 0.5 0.5 100 300, pixel_at 0.5 1.5 200 400])]
        (Some [[Fin 1, Fin 0, Fin 0]]) = (Inr ds, ds) \<and>
      get_values ds ''NDVI'' = Inr ndvi \<and>
      within_tolerance (1 / 1000000) (ndvi ! 0 ! 0) (1 / 2) \<and>
      ndvi ! 0 ! 1 = Fin NDVIMIN \<and>
      np_isnan (ndvi ! 0 ! 2) \<and>
      within_tolerance (1 / 1000000)
        (blend_cell_rounded (\<lambda>x. x + x / 100000000) (Fin (1 / 2)) (Fin 1)) (1 / 2)"
proof -
  let ?ds = "sample_dataset 1 3"
  let ?dir = "[(''/in/a.hdf'', [pixel_at 0.5 0.5 100 300, pixel_at 0.5 1.5 200 400])]"
  let ?m = "[[Fin 1, Fin 0, Fin 0]]"
  let ?rnd = "\<lambda>x :: real. x + x / 100000000"
  have nlat: "length (lat ?ds) = 1" and nlon: "length (lon ?ds) = 3"
    by code_simp+
  have ready: "regrid_ready unit_edges ?ds (Some ?m)"
    by code_simp
  have ne: "?dir \<noteq> []"
    by simp
  have m: "?m ! 0 ! 0 = Fin 1" "?m ! 0 ! 1 = Fin 0" "?m ! 0 ! 2 = Fin 0"
    by simp_all
  have e: "get_values (snd (regrid unit_edges ?ds ?dir None)) ''NDVI''
      = Inr [[Fin (1 / 2), Fin (1 / 3), NaN]]"
    by code_simp
  have rnd: "(\<forall>x. \<bar>?rnd x - x\<bar> \<le> \<bar>x\<bar> / 10000000) \<and> - 1 \<le> (1 / 2 :: real) \<and> (1 / 2 :: real) \<le> 1"
    by (simp add: abs_le_iff) (smt (verit) field_sum_of_halves)
  from C5_mask_blending [OF ready ne] obtain plain ndvi0 ds ndvi where
    r: "regrid unit_edges ?ds ?dir None = (Inr plain, plain)"
      "get_values plain ''NDVI'' = Inr ndvi0"
      "regrid unit_edges ?ds ?dir (Some ?m) = (Inr ds, ds)" "get_values ds ''NDVI'' = Inr ndvi"
    and c: "\<forall>i j. i < length (lat ?ds) \<and> j < length (lon ?ds) \<longrightarrow>
         (?m ! i ! j = Fin 1 \<longrightarrow>
            (\<forall>v. ndvi0 ! i ! j = Fin v \<longrightarrow> within_tolerance (1 / 1000000) (ndvi ! i ! j) v) \<and>
            (np_isnan (ndvi0 ! i ! j) \<longrightarrow> np_isnan (ndvi ! i ! j))) \<and>
         (?m ! i ! j = Fin 0 \<longrightarrow>
            (\<forall>v. ndvi0 ! i ! j = Fin v \<longrightarrow> ndvi ! i ! j = Fin NDVIMIN) \<and>
            (np_isnan (ndvi0 ! i ! j) \<longrightarrow> np_isnan (ndvi ! i ! j)))"
    and t: "\<forall>rnd v. (\<forall>x. \<bar>rnd x - x\<bar> \<le> \<bar>x\<bar> / 10000000) \<and> - 1 \<le> v \<and> v \<le> 1 \<longrightarrow>
         within_tolerance (1 / 1000000) (blend_cell_rounded rnd (Fin v) (Fin 1)) v"
    by blast
  have n0: "ndvi0 = [[Fin (1 / 2), Fin (1 / 3), NaN]]"
    using e r(1,2) by simp
  then have cells: "ndvi0 ! 0 ! 0 = Fin (1 / 2)" "ndvi0 ! 0 ! 1 = Fin (1 / 3)"
    "np_isnan (ndvi0 ! 0 ! 2)"
    by simp_all
  have in_grid: "(0::nat) < length (lat ?ds) \<and> (0::nat) < length (lon ?ds)"
    "(0::nat) < length (lat ?ds) \<and> (1::nat) < length (lon ?ds)"
    "(0::nat) < length (lat ?ds) \<and> (2::nat) < length (lon ?ds)"
    unfolding nlat nlon by simp_all
  have 1: "within_tolerance (1 / 1000000) (ndvi ! 0 ! 0) (1 / 2)"
    using c in_grid(1) m(1) cells(1) by blast
  have 2: "ndvi ! 0 ! 1 = Fin NDVIMIN"
    using c in_grid(2) m(2) cells(2) by blast
  have 3: "np_isnan (ndvi ! 0 ! 2)"
    using c in_grid(3) m(3) cells(3) by blast
  have 4: "within_tolerance (1 / 1000000) (blend_cell_rounded ?rnd (Fin (1 / 2)) (Fin 1)) (1 / 2)"
    using t [rule_format, of ?rnd "1 / 2"] rnd by blast
  from r n0 1 2 3 4 show ?thesis by blast
qed

section \<open>The pixel filter\<close>

lemma sint16_range: "- 32768 \<le> sint (x :: 16 word) \<and> sint x \<le> 32767"
  using sint_ge [of x] sint_lt [of x] by simp

lemma signed_take_bit_15_self:
  "- 32768 \<le> k \<Longrightarrow> k \<le> 32767 \<Longrightarrow> signed_take_bit 15 (k :: int) = k"
  by (rule signed_take_bit_int_eq_self) simp_all

lemma signed_take_bit_15_over:
  "32768 \<le> k \<Longrightarrow> signed_take_bit 15 (k :: int) \<le> k - 65536"
  using signed_take_bit_int_less_eq [of 15 k] by simp

lemma sint_add16: "sint (a + b :: 16 word) = signed_take_bit 15 (sint a + sint b)"
  by (simp add: sint_word_ariths)

lemma sint_sub16: "sint (a - b :: 16 word) = signed_take_bit 15 (sint a - sint b)"
  by (simp add: sint_word_ariths)

lemma sint_neg16: "sint (- a :: 16 word) = signed_take_bit 15 (- sint a)"
  by (simp add: sint_word_ariths)

lemma absolute_sentinel: "sint (absolute x) = 32767 \<longleftrightarrow> \<bar>sint x\<bar> = 32767"
proof (cases "sint x < 0")
  case False
  then show ?thesis by (simp add: absolute_def)
next
  case True
  show ?thesis
  proof (cases "sint x = - 32768")
    case True
    then show ?thesis by (simp add: absolute_def sint_neg16)
  next
    case False
    with \<open>sint x < 0\<close> sint16_range [of x]
    have "signed_take_bit 15 (- sint x) = - sint x"
      by (intro signed_take_bit_15_self) simp_all
    then show ?thesis using \<open>sint x < 0\<close> by (simp add: absolute_def sint_neg16)
  qed
qed

text \<open>Without wrap-around the 16-bit sum and difference are the sum and difference.\<close>

lemma float64_add_exact:
  "- 32768 \<le> sint a + sint b \<Longrightarrow> sint a + sint b \<le> 32767 \<Longrightarrow>
     float64 (a + b) = float64 a + float64 b"
  by (simp add: float64_def sint_add16 signed_take_bit_15_self)

lemma float64_sub_exact:
  "- 32768 \<le> sint a - sint b \<Longrightarrow> sint a - sint b \<le> 32767 \<Longrightarrow>
     float64 (a - b) = float64 a - float64 b"
  by (simp add: float64_def sint_sub16 signed_take_bit_15_self)

lemma floor_test_nonneg:
  assumes "0 \<le> sint (redin p)" and "0 \<le> sint (nirin p)"
    and m: "NDVIMIN * float64 (nirin p + redin p) \<le> float64 (nirin p - redin p)"
  shows "NDVIMIN * (nirval p + redval p) \<le> nirval p - redval p"
proof -
  let ?n = "sint (nirin p)" and ?r = "sint (redin p)"
  have rn: "?n \<le> 32767" "?r \<le> 32767"
    using sint16_range [of "nirin p"] sint16_range [of "redin p"] by simp_all
  have d: "float64 (nirin p - redin p) = float64 (nirin p) - float64 (redin p)"
    using assms(1,2) rn by (intro float64_sub_exact) simp_all
  show ?thesis
  proof (cases "?n + ?r \<le> 32767")
    case True
    then have "float64 (nirin p + redin p) = float64 (nirin p) + float64 (redin p)"
      using assms(1,2) by (intro float64_add_exact) simp_all
    then show ?thesis using m d by (simp add: nirval_def redval_def)
  next
    case False
    then have "sint (nirin p + redin p) \<le> ?n + ?r - 65536"
      unfolding sint_add16 by (intro signed_take_bit_15_over) simp
    then have "sint (nirin p + redin p) < 0"
      using rn by simp
    then have "float64 (nirin p + redin p) < 0"
      by (simp only: float64_def of_int_less_0_iff)
    then have "0 \<le> NDVIMIN * float64 (nirin p + redin p)"
      by (simp add: NDVIMIN_def mult_nonpos_nonpos)
    then have "0 \<le> float64 (nirin p) - float64 (redin p)"
      using m d by simp
    moreover have "0 \<le> float64 (nirin p)" and "0 \<le> float64 (redin p)"
      using assms(1,2) by (simp_all only: float64_def of_int_0_le_iff)
    then have "0 \<le> float64 (nirin p) + float64 (redin p)"
      by simp
    ultimately have "0 \<le> nirval p - redval p" and "0 \<le> nirval p + redval p"
      by (simp_all only: nirval_def redval_def)
    moreover have "NDVIMIN \<le> 0"
      by (simp add: NDVIMIN_def)
    ultimately have "NDVIMIN * (nirval p + redval p) \<le> 0"
      by (intro mult_nonpos_nonneg)
    with \<open>0 \<le> nirval p - redval p\<close> show ?thesis
      by linarith
  qed
qed

lemma cell_total_insert:
  "cell_total bins w i j (ps @ p # qs)
     = cell_total bins w i j (ps @ qs) + (if iok p \<and> in_cell bins i j p then w p else 0)"
  by (simp add: cell_total_def)

text \<open>
  Claim C6. A pixel passes the filter exactly when all five conditions hold, the fifth
  as line 71 evaluates it, on the 16-bit sum and difference of the two reflectances. A
  pixel whose red reflectance has magnitude 32767, or one of whose quality flags is 255,
  does not pass, whatever its other fields are. A pixel of non-negative reflectances
  that passes meets the fifth condition on the true sum and difference as well: it is
  binned only if all five conditions hold. A pixel that does not pass leaves no trace:
  the loop gives the same result with the pixel as without it. A pixel that passes and
  falls into a cell of the grid adds one to the count of that cell and its two
  reflectances to the two sums.
\<close>

theorem C6_pixel_filter:
  "(iok p \<longleftrightarrow>
      \<bar>sint (redin p)\<bar> \<noteq> 32767 \<and> \<bar>sint (nirin p)\<bar> \<noteq> 32767 \<and>
      redqc p \<noteq> 255 \<and> nirqc p \<noteq> 255 \<and>
      NDVIMIN * float64 (nirin p + redin p) \<le> float64 (nirin p - redin p)) \<and>
   (\<bar>sint (redin p)\<bar> = 32767 \<or> redqc p = 255 \<or> nirqc p = 255 \<longrightarrow> \<not> iok p) \<and>
   (iok p \<and> 0 \<le> sint (redin p) \<and> 0 \<le> sint (nirin p) \<longrightarrow>
      NDVIMIN * (nirval p + redval p) \<le> nirval p - redval p) \<and>
   (\<not> iok p \<longrightarrow>
      regrid_loop bins acc ((path, ps @ p # qs) # flist)
        = regrid_loop bins acc ((path, ps @ qs) # flist)) \<and>
   (iok p \<and> grid_ok nlat nlon bins \<and> i < nlat \<and> j < nlon \<and>
    bin_index (fst bins) (LAin p) = Some i \<and> bin_index (snd bins) (LOin p) = Some j \<longrightarrow>
      (\<exists>num red nir num' red' nir'.
         regrid_loop bins (zeros nlat nlon, zeros nlat nlon, zeros nlat nlon)
           [(path, ps @ qs)] = Inr (num, red, nir) \<and>
         regrid_loop bins (zeros nlat nlon, zeros nlat nlon, zeros nlat nlon)
           [(path, ps @ p # qs)] = Inr (num', red', nir') \<and>
         num' ! i ! j = num ! i ! j + 1 \<and>
         red' ! i ! j = red ! i ! j + redval p \<and>
         nir' ! i ! j = nir ! i ! j + nirval p))"
proof (intro conjI impI)
  show five: "iok p \<longleftrightarrow>
      \<bar>sint (redin p)\<bar> \<noteq> 32767 \<and> \<bar>sint (nirin p)\<bar> \<noteq> 32767 \<and>
      redqc p \<noteq> 255 \<and> nirqc p \<noteq> 255 \<and>
      NDVIMIN * float64 (nirin p + redin p) \<le> float64 (nirin p - redin p)"
    unfolding iok_def absolute_sentinel by blast
  show "\<not> iok p" if "\<bar>sint (redin p)\<bar> = 32767 \<or> redqc p = 255 \<or> nirqc p = 255"
    using that five by blast
  show "NDVIMIN * (nirval p + redval p) \<le> nirval p - redval p"
    if "iok p \<and> 0 \<le> sint (redin p) \<and> 0 \<le> sint (nirin p)"
    using that five floor_test_nonneg [of p] by blast
  show "regrid_loop bins acc ((path, ps @ p # qs) # flist)
        = regrid_loop bins acc ((path, ps @ qs) # flist)" if "\<not> iok p"
  proof -
    have eq: "filter iok (ps @ p # qs) = filter iok (ps @ qs)"
      using that by simp
    show ?thesis
      by (cases acc) (simp only: regrid_loop.simps Let_def snd_conv eq)
  qed
  show "\<exists>num red nir num' red' nir'.
         regrid_loop bins (zeros nlat nlon, zeros nlat nlon, zeros nlat nlon)
           [(path, ps @ qs)] = Inr (num, red, nir) \<and>
         regrid_loop bins (zeros nlat nlon, zeros nlat nlon, zeros nlat nlon)
           [(path, ps @ p # qs)] = Inr (num', red', nir') \<and>
         num' ! i ! j = num ! i ! j + 1 \<and>
         red' ! i ! j = red ! i ! j + redval p \<and>
         nir' ! i ! j = nir ! i ! j + nirval p"
    if h: "iok p \<and> grid_ok nlat nlon bins \<and> i < nlat \<and> j < nlon \<and>
      bin_index (fst bins) (LAin p) = Some i \<and> bin_index (snd bins) (LOin p) = Some j"
  proof -
    have g: "grid_ok nlat nlon bins" and ij: "i < nlat" "j < nlon"
      and inc: "iok p \<and> in_cell bins i j p"
      using h by (simp_all add: in_cell_def)
    have "files_total bins w i j [(path, ps @ p # qs)]
        = files_total bins w i j [(path, ps @ qs)] + w p" for w
      using inc by (simp add: files_total_def cell_total_insert)
    then show ?thesis
      unfolding regrid_loop_zeros [OF g]
      using ij by (simp add: table_nth del: regrid_loop.simps)
  qed
qed

text \<open>
  Pixels with the fill value, with its negative and with an unusable flag, a pixel
  whose reflectances sum beyond the 16-bit range, which the wrapped sum excludes, and a
  valid pixel in the first cell.
\<close>

theorem C6_pixel_filter_witness:
  "\<not> iok (pixel_at 0.5 0.5 32767 300) \<and>
   \<not> iok (pixel_at 0.5 0.5 (- 32767) 300) \<and>
   \<not> iok (\<lparr>LAin = 0.5, LOin = 0.5, redin = 100, redqc = 255, nirin = 300, nirqc = 0\<rparr>) \<and>
   \<not> iok (\<lparr>LAin = 0.5, LOin = 0.5, redin = 100, redqc = 0, nirin = 300, nirqc = 255\<rparr>) \<and>
   \<not> iok (pixel_at 0.5 0.5 20000 20000) \<and>
   regrid_loop (unit_edges 1 2) (zeros 1 2, zeros 1 2, zeros 1 2)
     [(''/in/a.hdf'', [pixel_at 0.5 1.5 200 400] @ pixel_at 0.5 0.5 32767 300 # [])]
     = regrid_loop (unit_edges 1 2) (zeros 1 2, zeros 1 2, zeros 1 2)
     [(''/in/a.hdf'', [pixel_at 0.5 1.5 200 400] @ [])] \<and>
   iok (pixel_at 0.5 0.5 100 300) \<and>
   NDVIMIN * (nirval (pixel_at 0.5 0.5 100 300) + redval (pixel_at 0.5 0.5 100 300))
     \<le> nirval (pixel_at 0.5 0.5 100 300) - redval (pixel_at 0.5 0.5 100 300) \<and>
   (\<exists>num red nir num' red' nir'.
      regrid_loop (unit_edges 1 2) (zeros 1 2, zeros 1 2, zeros 1 2)
        [(''/in/a.hdf'', [pixel_at 0.5 1.5 200 400] @ [])] = Inr (num, red, nir) \<and>
      regrid_loop (unit_edges 1 2) (zeros 1 2, zeros 1 2, zeros 1 2)
        [(''/in/a.hdf'', [pixel_at 0.5 1.5 200 400] @ pixel_at 0.5 0.5 100 300 # [])]
        = Inr (num', red', nir') \<and>
      num' ! 0 ! 0 = num ! 0 ! 0 + 1 \<and>
      red' ! 0 ! 0 = red ! 0 ! 0 + 100 \<and>
      nir' ! 0 ! 0 = nir ! 0 ! 0 + 300)"
proof -
  let ?bad = "pixel_at 0.5 0.5 32767 300"
  let ?neg = "pixel_at 0.5 0.5 (- 32767) 300"
  let ?rqc = "\<lparr>LAin = 0.5, LOin = 0.5, redin = 100, redqc = 255, nirin = 300, nirqc = 0\<rparr>"
  let ?nqc = "\<lparr>LAin = 0.5, LOin = 0.5, redin = 100, redqc = 0, nirin = 300, nirqc = 255\<rparr>"
  let ?good = "pixel_at 0.5 0.5 100 300"
  let ?Z = "(zeros 1 2, zeros 1 2, zeros 1 2)"
  have bad: "\<bar>sint (redin ?bad)\<bar> = 32767" and neg: "\<bar>sint (redin ?neg)\<bar> = 32767"
    by code_simp+
  have rqc: "redqc ?rqc = 255" and nqc: "nirqc ?nqc = 255"
    by simp_all
  have 1: "\<not> iok ?bad"
    using C6_pixel_filter [of ?bad] bad by blast
  have 2: "\<not> iok ?neg"
    using C6_pixel_filter [of ?neg] neg by blast
  have 3: "\<not> iok ?rqc"
    using C6_pixel_filter [of ?rqc] rqc by blast
  have 4: "\<not> iok ?nqc"
    using C6_pixel_filter [of ?nqc] nqc by blast
  have 5: "regrid_loop (unit_edges 1 2) ?Z
     [(''/in/a.hdf'', [pixel_at 0.5 1.5 200 400] @ ?bad # [])]
     = regrid_loop (unit_edges 1 2) ?Z [(''/in/a.hdf'', [pixel_at 0.5 1.5 200 400] @ [])]"
    using C6_pixel_filter [where p = ?bad and bins = "unit_edges 1 2" and acc = ?Z
        and path = "''/in/a.hdf''" and ps = "[pixel_at 0.5 1.5 200 400]" and qs = "[]"
        and flist = "[]"] 1 by blast
  have wrap: "\<not> iok (pixel_at 0.5 0.5 20000 20000)"
    by code_simp
  have good: "iok ?good"
    by code_simp
  have nonneg: "0 \<le> sint (redin ?good)" "0 \<le> sint (nirin ?good)"
    by code_simp+
  have g: "grid_ok 1 2 (unit_edges 1 2)"
    by code_simp
  have b: "bin_index (fst (unit_edges 1 2)) (LAin ?good) = Some 0"
      "bin_index (snd (unit_edges 1 2)) (LOin ?good) = Some 0"
    by code_simp+
  have r: "redval ?good = 100" "nirval ?good = 300"
    by code_simp+
  have 6: "NDVIMIN * (nirval ?good + redval ?good) \<le> nirval ?good - redval ?good"
    using C6_pixel_filter [of ?good] good nonneg by blast
  have 7: "\<exists>num red nir num' red' nir'.
      regrid_loop (unit_edges 1 2) ?Z
        [(''/in/a.hdf'', [pixel_at 0.5 1.5 200 400] @ [])] = Inr (num, red, nir) \<and>
      regrid_loop (unit_edges 1 2) ?Z
        [(''/in/a.hdf'', [pixel_at 0.5 1.5 200 400] @ ?good # [])]
        = Inr (num', red', nir') \<and>
      num' ! 0 ! 0 = num ! 0 ! 0 + 1 \<and>
      red' ! 0 ! 0 = red ! 0 ! 0 + 100 \<and>
      nir' ! 0 ! 0 = nir ! 0 ! 0 + 300"
    using C6_pixel_filter [where p = ?good and nlat = 1 and nlon = 2
        and bins = "unit_edges 1 2" and i = 0 and j = 0 and path = "''/in/a.hdf''"
        and ps = "[pixel_at 0.5 1.5 200 400]" and qs = "[]"] good g b
    unfolding r by simp
  from 1 2 3 4 wrap 5 good 6 7 show ?thesis by blast
qed

section \<open>The fifth condition of the filter\<close>

lemma values_sum: "nirval p + redval p = real_of_int (sint (nirin p) + sint (redin p))"
  by (simp only: nirval_def redval_def float64_def of_int_add)

lemma values_diff: "nirval p - redval p = real_of_int (sint (nirin p) - sint (redin p))"
  by (simp only: nirval_def redval_def float64_def of_int_diff)

lemma floor_test_exact:
  assumes "0 < sint (nirin p) + sint (redin p)" and "sint (nirin p) + sint (redin p) \<le> 32767"
    and "- 32768 \<le> sint (nirin p) - sint (redin p)" and "sint (nirin p) - sint (redin p) \<le> 32767"
  shows "(NDVIMIN * float64 (nirin p + redin p) \<le> float64 (nirin p - redin p))
           \<longleftrightarrow> np_less_equal (Fin NDVIMIN) (implied_ndvi p)"
proof -
  have s: "float64 (nirin p + redin p) = nirval p + redval p"
    unfolding nirval_def redval_def using assms(1,2) by (intro float64_add_exact) simp_all
  have d: "float64 (nirin p - redin p) = nirval p - redval p"
    unfolding nirval_def redval_def using assms(3,4) by (intro float64_sub_exact) simp_all
  have pos: "0 < nirval p + redval p"
    unfolding values_sum using assms(1) by (simp only: of_int_0_less_iff)
  then have "implied_ndvi p = Fin ((nirval p - redval p) / (nirval p + redval p))"
    by (simp add: implied_ndvi_def)
  then show ?thesis
    unfolding s d using pos by (simp add: pos_le_divide_eq)
qed

text \<open>
  Claim C7, as amended. For a pixel whose two reflectances have a positive sum, and whose
  sum and difference fit the 16-bit integers of the arrays, the fifth condition of the
  filter holds exactly when the NDVI that the pixel implies, \<open>(nir - red)/(nir + red)\<close>,
  is at least \<open>NDVIMIN\<close>; if the pixel also passes the four tests of the fill value and
  the quality flags, it passes the filter exactly then. A pixel whose two reflectances
  are zero passes the filter, although the NDVI that it implies is undefined.
\<close>

theorem C7_floor_test:
  "(0 < sint (nirin p) + sint (redin p) \<and> sint (nirin p) + sint (redin p) \<le> 32767 \<and>
    - 32768 \<le> sint (nirin p) - sint (redin p) \<and> sint (nirin p) - sint (redin p) \<le> 32767 \<longrightarrow>
      ((NDVIMIN * float64 (nirin p + redin p) \<le> float64 (nirin p - redin p))
         \<longleftrightarrow> np_less_equal (Fin NDVIMIN) (implied_ndvi p)) \<and>
      (\<bar>sint (redin p)\<bar> \<noteq> 32767 \<and> \<bar>sint (nirin p)\<bar> \<noteq> 32767 \<and>
       redqc p \<noteq> 255 \<and> nirqc p \<noteq> 255 \<longrightarrow>
         (iok p \<longleftrightarrow> np_less_equal (Fin NDVIMIN) (implied_ndvi p)))) \<and>
   (redin p = 0 \<and> nirin p = 0 \<and> redqc p \<noteq> 255 \<and> nirqc p \<noteq> 255 \<longrightarrow>
      iok p \<and> implied_ndvi p = NaN)"
proof (intro conjI impI)
  assume h: "0 < sint (nirin p) + sint (redin p) \<and> sint (nirin p) + sint (redin p) \<le> 32767 \<and>
    - 32768 \<le> sint (nirin p) - sint (redin p) \<and> sint (nirin p) - sint (redin p) \<le> 32767"
  then show e: "(NDVIMIN * float64 (nirin p + redin p) \<le> float64 (nirin p - redin p))
         \<longleftrightarrow> np_less_equal (Fin NDVIMIN) (implied_ndvi p)"
    by (intro floor_test_exact) simp_all
  assume "\<bar>sint (redin p)\<bar> \<noteq> 32767 \<and> \<bar>sint (nirin p)\<bar> \<noteq> 32767 \<and>
       redqc p \<noteq> 255 \<and> nirqc p \<noteq> 255"
  then show "iok p \<longleftrightarrow> np_less_equal (Fin NDVIMIN) (implied_ndvi p)"
    unfolding e [symmetric] iok_def absolute_sentinel by blast
next
  assume z: "redin p = 0 \<and> nirin p = 0 \<and> redqc p \<noteq> 255 \<and> nirqc p \<noteq> 255"
  then show "iok p"
    by (simp add: iok_def absolute_def float64_def)
  from z show "implied_ndvi p = NaN"
    by (simp add: implied_ndvi_def nirval_def redval_def float64_def)
qed

text \<open>
  A pixel of implied NDVI \<open>0.5\<close>, which passes, one of \<open>-0.6\<close>, which does not, and the
  pixel of two zeros.
\<close>

theorem C7_floor_test_witness:
  "iok (pixel_at 0.5 0.5 100 300) \<and>
   np_less_equal (Fin NDVIMIN) (implied_ndvi (pixel_at 0.5 0.5 100 300)) \<and>
   \<not> iok (pixel_at 0.5 0.5 400 100) \<and>
   \<not> np_less_equal (Fin NDVIMIN) (implied_ndvi (pixel_at 0.5 0.5 400 100)) \<and>
   iok (pixel_at 0.5 0.5 0 0) \<and> implied_ndvi (pixel_at 0.5 0.5 0 0) = NaN"
proof -
  let ?p = "pixel_at 0.5 0.5 100 300" and ?q = "pixel_at 0.5 0.5 400 100"
  let ?z = "pixel_at 0.5 0.5 0 0"
  have p: "0 < sint (nirin ?p) + sint (redin ?p) \<and> sint (nirin ?p) + sint (redin ?p) \<le> 32767 \<and>
    - 32768 \<le> sint (nirin ?p) - sint (redin ?p) \<and> sint (nirin ?p) - sint (redin ?p) \<le> 32767"
    and p4: "\<bar>sint (redin ?p)\<bar> \<noteq> 32767 \<and> \<bar>sint (nirin ?p)\<bar> \<noteq> 32767 \<and>
       redqc ?p \<noteq> 255 \<and> nirqc ?p \<noteq> 255"
    and pi: "iok ?p"
    by code_simp+
  have q: "0 < sint (nirin ?q) + sint (redin ?q) \<and> sint (nirin ?q) + sint (redin ?q) \<le> 32767 \<and>
    - 32768 \<le> sint (nirin ?q) - sint (redin ?q) \<and> sint (nirin ?q) - sint (redin ?q) \<le> 32767"
    and q4: "\<bar>sint (redin ?q)\<bar> \<noteq> 32767 \<and> \<bar>sint (nirin ?q)\<bar> \<noteq> 32767 \<and>
       redqc ?q \<noteq> 255 \<and> nirqc ?q \<noteq> 255"
    and qi: "\<not> iok ?q"
    by code_simp+
  have z: "redin ?z = 0 \<and> nirin ?z = 0 \<and> redqc ?z \<noteq> 255 \<and> nirqc ?z \<noteq> 255"
    by (simp add: pixel_at_def)
  from C7_floor_test [of ?p] p p4 pi
  have 1: "np_less_equal (Fin NDVIMIN) (implied_ndvi ?p)" by blast
  from C7_floor_test [of ?q] q q4 qi
  have 2: "\<not> np_less_equal (Fin NDVIMIN) (implied_ndvi ?q)" by blast
  from C7_floor_test [of ?z] z
  have 3: "iok ?z \<and> implied_ndvi ?z = NaN" by blast
  from pi 1 qi 2 3 show ?thesis by blast
qed

text \<open>
  Claim C7 as stated fails for a pixel whose two reflectances are zero: it meets the
  fifth condition, and passes the filter, while its implied NDVI is \<open>0/0\<close>, which is not
  at least \<open>NDVIMIN\<close>.
\<close>

theorem C7_floor_test_counterexample:
  "iok (pixel_at 0.5 0.5 0 0) \<and>
   NDVIMIN * float64 (nirin (pixel_at 0.5 0.5 0 0) + redin (pixel_at 0.5 0.5 0 0))
     \<le> float64 (nirin (pixel_at 0.5 0.5 0 0) - redin (pixel_at 0.5 0.5 0 0)) \<and>
   \<not> np_less_equal (Fin NDVIMIN) (implied_ndvi (pixel_at 0.5 0.5 0 0))"
  by (simp add: pixel_at_def implied_ndvi_def iok_def absolute_def float64_def
      nirval_def redval_def)

section \<open>The range of fPAR\<close>














section \<open>The provenance attribute\<close>

lemma basename_join: "CHR ''/'' \<notin> set n \<Longrightarrow> basename (d @ ''/'' @ n) = n"
proof -
  assume "CHR ''/'' \<notin> set n"
  then have "takeWhile (\<lambda>c. c \<noteq> CHR ''/'') (rev n @ ''/'' @ rev d) = rev n"
    by (subst takeWhile_append2) auto
  then show ?thesis
    by (simp add: basename_def)
qed

text \<open>
  Claim C9, as amended. After a successful call of \<^verbatim>\<open>_regrid\<close> the attribute
  \<^verbatim>\<open>input_files\<close> of the dataset holds the base names of the granule files in the order
  in which \<^verbatim>\<open>glob\<close> listed them, joined by a comma and a space. The base name of a path
  is what follows its last slash.
\<close>

theorem C9_input_files:
  assumes "regrid_ready edges dsout msk" and "dirin \<noteq> []"
  shows "\<exists>ds. regrid edges dsout dirin msk = (Inr ds, ds) \<and>
      map_of (attrs ds) ''input_files''
        = Some (join '', '' (map (\<lambda>ff. basename (fst ff)) dirin)) \<and>
      (\<forall>d n. CHR ''/'' \<notin> set n \<longrightarrow> basename (d @ ''/'' @ n) = n)"
proof -
  obtain v where v: "map_of (data_vars dsout) ''NDVI'' = Some v"
    using assms(1) by (auto simp: regrid_ready_def Let_def split: option.splits)
  have "map_of (attrs (regrid_output edges dsout dirin msk v)) ''input_files''
        = Some (join '', '' (map (\<lambda>ff. basename (fst ff)) dirin))"
    by (simp add: regrid_output_def Let_def update_conv')
  then show ?thesis
    using regrid_result [OF assms v] basename_join by auto
qed

text \<open>Two files that \<^verbatim>\<open>glob\<close> lists in descending order.\<close>

theorem C9_input_files_witness:
  "\<exists>ds. regrid unit_edges (sample_dataset 1 2)
       [(''/in/b.hdf'', []), (''/in/a.hdf'', [pixel_at 0.5 0.5 100 300])] None = (Inr ds, ds) \<and>
      map_of (attrs ds) ''input_files'' = Some ''b.hdf, a.hdf''"
proof -
  let ?dir = "[(''/in/b.hdf'', []), (''/in/a.hdf'', [pixel_at 0.5 0.5 100 300])]"
  have ready: "regrid_ready unit_edges (sample_dataset 1 2) None"
    by code_simp
  have ne: "?dir \<noteq> []"
    by simp
  have j: "join '', '' (map (\<lambda>ff. basename (fst ff)) ?dir) = ''b.hdf, a.hdf''"
    by code_simp
  from C9_input_files [OF ready ne] show ?thesis
    unfolding j by blast
qed

text \<open>
  Claim C9 as stated fails: the function does not sort. For files listed as
  \<^verbatim>\<open>b.hdf\<close>, \<^verbatim>\<open>a.hdf\<close> the attribute is \<^verbatim>\<open>b.hdf, a.hdf\<close>, which is not the sorted list
  joined by commas, with or without a space.
\<close>

theorem C9_glob_order_counterexample:
  "map_of (attrs (snd (regrid unit_edges (sample_dataset 1 2)
       [(''/in/b.hdf'', []), (''/in/a.hdf'', [])] None))) ''input_files''
     = Some ''b.hdf, a.hdf'' \<and>
   sorted_basenames [(''/in/b.hdf'', []), (''/in/a.hdf'', [])] = [''a.hdf'', ''b.hdf''] \<and>
   ''b.hdf, a.hdf'' \<noteq> join '','' (sorted_basenames [(''/in/b.hdf'', []), (''/in/a.hdf'', [])]) \<and>
   ''b.hdf, a.hdf'' \<noteq> join '', '' (sorted_basenames [(''/in/b.hdf'', []), (''/in/a.hdf'', [])])"
  by code_simp

section \<open>The method \<^verbatim>\<open>ndvi2fpar\<close> and its receiver\<close>

text \<open>
  Claim C10. The method \<^verbatim>\<open>VegInd.ndvi2fpar\<close> leaves its receiver as it was. The dataset
  it returns has the coordinates and the attributes of the receiver and the same
  variable under every name but \<^verbatim>\<open>fPAR\<close>, the NDVI among them; its variable \<^verbatim>\<open>fPAR\<close>
  holds the active conversion of the NDVI. It returns a dataset whenever the receiver
  holds an NDVI variable of the shape of its grid.
\<close>

theorem C10_ndvi2fpar_frame:
  "snd (VegInd_ndvi2fpar self lctype) = self \<and>
   (\<forall>ds. fst (VegInd_ndvi2fpar self lctype) = Inr ds \<longrightarrow>
      lat ds = lat self \<and> lon ds = lon self \<and> attrs ds = attrs self \<and>
      (\<forall>name. name \<noteq> ''fPAR'' \<longrightarrow>
         map_of (data_vars ds) name = map_of (data_vars self) name) \<and>
      (\<exists>ndvi. get_values self ''NDVI'' = Inr ndvi \<and> get_values ds ''NDVI'' = Inr ndvi \<and>
         get_values ds ''fPAR'' = Inr (ndvi2fpar_jojo ndvi))) \<and>
   (\<forall>v. map_of (data_vars self) ''NDVI'' = Some v \<and>
        shape_is (length (lat self)) (length (lon self)) (data v) \<longrightarrow>
      (\<exists>ds. fst (VegInd_ndvi2fpar self lctype) = Inr ds))"
proof (intro conjI allI impI)
  show "snd (VegInd_ndvi2fpar self lctype) = self"
    by (simp add: VegInd_ndvi2fpar_def Let_def split: sum.split)
next
  fix ds assume r: "fst (VegInd_ndvi2fpar self lctype) = Inr ds"
  then obtain ndvi where n: "get_values self ''NDVI'' = Inr ndvi"
    and a: "assign self ''fPAR''
              \<lparr>dims = [''lat'', ''lon''], data = ndvi2fpar_jojo ndvi,
               var_attrs = [(''long_name'',
                   ''Fraction (absorbed) Photosynthetically Available '' @
                   ''Radiation (fPAR)''), (''units'', ''1'')]\<rparr> = Inr ds"
    by (auto simp: VegInd_ndvi2fpar_def Let_def split: sum.splits)
  from a have ds: "ds = self\<lparr>data_vars := AList.update ''fPAR''
              \<lparr>dims = [''lat'', ''lon''], data = ndvi2fpar_jojo ndvi,
               var_attrs = [(''long_name'',
                   ''Fraction (absorbed) Photosynthetically Available '' @
                   ''Radiation (fPAR)''), (''units'', ''1'')]\<rparr> (data_vars self)\<rparr>"
    by (auto simp: assign_def split: if_splits)
  show "lat ds = lat self" "lon ds = lon self" "attrs ds = attrs self"
    by (simp_all add: ds)
  show "map_of (data_vars ds) name = map_of (data_vars self) name" if "name \<noteq> ''fPAR''" for name
    using that by (simp add: ds update_conv')
  have "get_values ds ''NDVI'' = Inr ndvi"
    using n by (simp add: ds get_values_def update_conv' split: option.splits)
  moreover have "get_values ds ''fPAR'' = Inr (ndvi2fpar_jojo ndvi)"
    by (simp add: ds get_values_def update_conv')
  ultimately show "\<exists>ndvi. get_values self ''NDVI'' = Inr ndvi \<and> get_values ds ''NDVI'' = Inr ndvi \<and>
         get_values ds ''fPAR'' = Inr (ndvi2fpar_jojo ndvi)"
    using n by blast
next
  fix v assume v: "map_of (data_vars self) ''NDVI'' = Some v \<and>
        shape_is (length (lat self)) (length (lon self)) (data v)"
  then have "shape_is (length (lat self)) (length (lon self)) (ndvi2fpar_jojo (data v))"
    by (simp add: shape_is_def ndvi2fpar_jojo_def comp_def)
  then show "\<exists>ds. fst (VegInd_ndvi2fpar self lctype) = Inr ds"
    using v by (simp add: VegInd_ndvi2fpar_def get_values_def assign_def Let_def)
qed

text \<open>The dataset as built by the constructor, whose NDVI is undefined everywhere.\<close>

theorem C10_ndvi2fpar_frame_witness:
  "snd (VegInd_ndvi2fpar (sample_dataset 1 2) [[0, 0]]) = sample_dataset 1 2 \<and>
   (\<exists>ds. fst (VegInd_ndvi2fpar (sample_dataset 1 2) [[0, 0]]) = Inr ds \<and>
      lat ds = lat (sample_dataset 1 2) \<and> lon ds = lon (sample_dataset 1 2) \<and>
      attrs ds = attrs (sample_dataset 1 2) \<and>
      map_of (data_vars ds) ''NDVI'' = map_of (data_vars (sample_dataset 1 2)) ''NDVI'' \<and>
      get_values ds ''NDVI'' = Inr [[NaN, NaN]] \<and>
      get_values ds ''fPAR'' = Inr [[Fin 0, Fin 0]])"
proof -
  let ?d = "sample_dataset 1 2"
  let ?v = "\<lparr>dims = [''lat'', ''lon''], data = replicate 1 (replicate 2 NaN),
          var_attrs = [(''long_name'', ''Normalized difference vegetation index (NDVI)''),
            (''units'', ''1'')]\<rparr>"
  have v: "map_of (data_vars ?d) ''NDVI'' = Some ?v \<and>
      shape_is (length (lat ?d)) (length (lon ?d)) (data ?v)"
    by (simp add: sample_dataset_def shape_is_def)
  have n: "get_values ?d ''NDVI'' = Inr [[NaN, NaN]]"
    by (simp add: sample_dataset_def get_values_def numeral_2_eq_2)
  have j: "ndvi2fpar_jojo [[NaN, NaN]] = [[Fin 0, Fin 0]]"
    by (simp add: ndvi2fpar_jojo_def jojo_cell_NaN)
  have ne: "''NDVI'' \<noteq> ''fPAR''"
    by simp
  note t = C10_ndvi2fpar_frame [of ?d "[[0, 0]]"]
  have s: "snd (VegInd_ndvi2fpar ?d [[0, 0]]) = ?d"
    by (rule t [THEN conjunct1])
  have "\<exists>ds. fst (VegInd_ndvi2fpar ?d [[0, 0]]) = Inr ds"
    by (rule t [THEN conjunct2, THEN conjunct2, rule_format, OF v])
  then obtain ds where ds: "fst (VegInd_ndvi2fpar ?d [[0, 0]]) = Inr ds" ..
  note f = t [THEN conjunct2, THEN conjunct1, rule_format, OF ds]
  have f1: "lat ds = lat ?d"
    by (rule f [THEN conjunct1])
  have f2: "lon ds = lon ?d"
    by (rule f [THEN conjunct2, THEN conjunct1])
  have f3: "attrs ds = attrs ?d"
    by (rule f [THEN conjunct2, THEN conjunct2, THEN conjunct1])
  have f4: "map_of (data_vars ds) ''NDVI'' = map_of (data_vars ?d) ''NDVI''"
    by (rule f [THEN conjunct2, THEN conjunct2, THEN conjunct2, THEN conjunct1, rule_format,
          OF ne])
  from f [THEN conjunct2, THEN conjunct2, THEN conjunct2, THEN conjunct2]
  obtain ndvi where g: "get_values ?d ''NDVI'' = Inr ndvi"
    "get_values ds ''NDVI'' = Inr ndvi" "get_values ds ''fPAR'' = Inr (ndvi2fpar_jojo ndvi)"
    by (elim conjE exE)
  have "ndvi = [[NaN, NaN]]"
    using g(1) unfolding n by simp
  then have g': "get_values ds ''NDVI'' = Inr [[NaN, NaN]]"
    "get_values ds ''fPAR'' = Inr [[Fin 0, Fin 0]]"
    using g(2,3) j by simp_all
  show ?thesis
    by (intro conjI exI [of _ ds]) (rule s ds f1 f2 f3 f4 g')+
qed

end
